theory Spec2Isabelle
  imports Complex_Main "HOL-Library.Sublist"
begin

section \<open>JavaScript strings and JSON values\<close>

text \<open>
  A JavaScript string is a sequence of UTF-16 code units; \<open>length\<close>, \<open>slice\<close>,
  \<open>trim\<close> and regular expressions without the \<open>u\<close> flag all count code units.
  A code unit is modelled by its number. \<open>js\<close> turns an ASCII literal into such a string.
\<close>

type_synonym jstring = "nat list"

definition js :: "string \<Rightarrow> jstring" where
  "js s = map of_char s"

text \<open>\<open>WhiteSpace\<close> and \<open>LineTerminator\<close> of ECMAScript: what \<open>trim\<close> removes.\<close>

definition isJsSpace :: "nat \<Rightarrow> bool" where
  "isJsSpace c \<longleftrightarrow>
     c = 9 \<or> c = 10 \<or> c = 11 \<or> c = 12 \<or> c = 13 \<or> c = 32 \<or> c = 160 \<or> c = 5760 \<or>
     (8192 \<le> c \<and> c \<le> 8202) \<or> c = 8232 \<or> c = 8233 \<or> c = 8239 \<or> c = 8287 \<or>
     c = 12288 \<or> c = 65279"

definition trim :: "jstring \<Rightarrow> jstring" where
  "trim s = rev (dropWhile isJsSpace (rev (dropWhile isJsSpace s)))"

definition startsWith :: "jstring \<Rightarrow> jstring \<Rightarrow> bool" where
  "startsWith s p \<longleftrightarrow> take (length p) s = p"

definition endsWith :: "jstring \<Rightarrow> jstring \<Rightarrow> bool" where
  "endsWith s p \<longleftrightarrow> length p \<le> length s \<and> drop (length s - length p) s = p"

fun includesStr :: "jstring \<Rightarrow> jstring \<Rightarrow> bool" where
  "includesStr [] p = (p = [])"
| "includesStr (c # cs) p = (startsWith (c # cs) p \<or> includesStr cs p)"

fun join :: "jstring \<Rightarrow> jstring list \<Rightarrow> jstring" where
  "join sep [] = []"
| "join sep [x] = x"
| "join sep (x # y # ys) = x @ sep @ join sep (y # ys)"

text \<open>
  A JSON value as \<open>JSON.parse\<close> delivers it. An object is the list of its entries in the
  order \<open>Object.entries\<close> enumerates them; its keys are pairwise distinct.
  A number is a finite double, hence a rational.
\<close>

datatype json =
    JNull
  | JBool bool
  | JNum rat
  | JStr jstring
  | JArr "json list"
  | JObj "(jstring \<times> json) list"

fun truthy :: "json \<Rightarrow> bool" where
  "truthy JNull = False"
| "truthy (JBool b) = b"
| "truthy (JNum n) = (n \<noteq> 0)"
| "truthy (JStr s) = (s \<noteq> [])"
| "truthy (JArr xs) = True"
| "truthy (JObj kvs) = True"

text \<open>\<open>typeof v === 'object'\<close>: true of \<open>null\<close>, arrays and objects.\<close>

fun typeofObject :: "json \<Rightarrow> bool" where
  "typeofObject JNull = True"
| "typeofObject (JArr xs) = True"
| "typeofObject (JObj kvs) = True"
| "typeofObject v = False"

definition hasKey :: "jstring \<Rightarrow> (jstring \<times> json) list \<Rightarrow> bool" where
  "hasKey k kvs \<longleftrightarrow> k \<in> set (map fst kvs)"

definition deleteKey :: "jstring \<Rightarrow> (jstring \<times> json) list \<Rightarrow> (jstring \<times> json) list" where
  "deleteKey k kvs = filter (\<lambda>kv. fst kv \<noteq> k) kvs"

section \<open>Schema cleaner (\<open>src/utils/utils.js\<close>, \<open>cleanJsonSchema\<close>)\<close>

definition validationFields :: "(jstring \<times> jstring) list" where
  "validationFields = map (\<lambda>f. (js f, js f))
     [''minLength'', ''maxLength'', ''minimum'', ''maximum'', ''minItems'', ''maxItems'',
      ''minProperties'', ''maxProperties'', ''pattern'', ''format'', ''multipleOf'']"

definition fieldsToRemove :: "jstring list" where
  "fieldsToRemove = map js
     [''$schema'', ''additionalProperties'', ''uniqueItems'', ''exclusiveMinimum'',
      ''exclusiveMaximum'']"

text \<open>
  \<open>validationFields\<close> is an object literal, so \<open>key in validationFields\<close> also holds for
  the property names it inherits from \<open>Object.prototype\<close>.
\<close>

definition objectPrototypeKeys :: "jstring list" where
  "objectPrototypeKeys = map js
     [''constructor'', ''__defineGetter__'', ''__defineSetter__'', ''hasOwnProperty'',
      ''__lookupGetter__'', ''__lookupSetter__'', ''isPrototypeOf'', ''propertyIsEnumerable'',
      ''toString'', ''valueOf'', ''__proto__'', ''toLocaleString'']"

definition inValidationFields :: "jstring \<Rightarrow> bool" where
  "inValidationFields key \<longleftrightarrow>
     key \<in> set (map fst validationFields) \<or> key \<in> set objectPrototypeKeys"

text \<open>
  \<open>collectValidations\<close> mutates \<open>obj\<close>: the state of its two loops is the pair of the
  collected messages and the object with the fields deleted so far.
\<close>

definition collectValidationField ::
  "jstring \<times> jstring \<Rightarrow> jstring list \<times> (jstring \<times> json) list \<Rightarrow>
   jstring list \<times> (jstring \<times> json) list" where
  "collectValidationField fv st =
     (case st of (validations, obj) \<Rightarrow>
        if hasKey (fst fv) obj
        then (validations @ [fst fv @ js '': '' @ snd fv], deleteKey (fst fv) obj)
        else (validations, obj))"

definition removeField ::
  "jstring \<Rightarrow> jstring list \<times> (jstring \<times> json) list \<Rightarrow>
   jstring list \<times> (jstring \<times> json) list" where
  "removeField field st =
     (case st of (validations, obj) \<Rightarrow>
        if hasKey field obj
        then ((if field = js ''additionalProperties'' \<and> map_of obj field = Some (JBool False)
               then validations @ [js ''no additional properties''] else validations),
              deleteKey field obj)
        else (validations, obj))"

definition collectValidations ::
  "(jstring \<times> json) list \<Rightarrow> jstring list \<times> (jstring \<times> json) list" where
  "collectValidations obj =
     fold removeField fieldsToRemove (fold collectValidationField validationFields ([], obj))"

text \<open>
  The rewritten description: \<open>`${value || ''} (${validations.join(', ')})`.trim()\<close>.
  \<open>str\<close> is the language's conversion of a value that is not a string to a string.
\<close>

definition describeWith :: "(json \<Rightarrow> jstring) \<Rightarrow> json \<Rightarrow> jstring list \<Rightarrow> jstring" where
  "describeWith str v validations =
     trim ((if truthy v then (case v of JStr s \<Rightarrow> s | _ \<Rightarrow> str v) else [])
           @ js '' ('' @ join (js '', '') validations @ js '')'')"

text \<open>The final step of \<open>cleanObject\<close> on an object: an empty \<open>required\<close> array is deleted.\<close>

definition dropEmptyRequired :: "(jstring \<times> json) list \<Rightarrow> (jstring \<times> json) list" where
  "dropEmptyRequired cleaned =
     (case map_of cleaned (js ''required'') of
        Some (JArr []) \<Rightarrow> deleteKey (js ''required'') cleaned
      | _ \<Rightarrow> cleaned)"

function (sequential) cleanObject :: "(json \<Rightarrow> jstring) \<Rightarrow> json \<Rightarrow> jstring \<Rightarrow> json" where
  "cleanObject str (JArr xs) path =
     JArr (map (\<lambda>item. if typeofObject item then cleanObject str item path else item) xs)"
| "cleanObject str (JObj obj) path =
     (let validations = fst (collectValidations obj) in
      JObj (dropEmptyRequired
        (concat (map (\<lambda>kv.
           if fst kv \<in> set fieldsToRemove then []
           else if inValidationFields (fst kv) then []
           else if fst kv = js ''description'' \<and> validations \<noteq> [] \<and> path = []
             then [(fst kv, JStr (describeWith str (snd kv) validations))]
           else [(fst kv, if typeofObject (snd kv)
                          then cleanObject str (snd kv) (path @ js ''.'' @ fst kv)
                          else snd kv)])
          (snd (collectValidations obj))))))"
| "cleanObject str v path = v"
  by pat_completeness auto
termination
proof (relation "measure (\<lambda>(str, v, path). size v)")
  show "wf (measure (\<lambda>(str, v, path). size v))"
    by simp
next
  fix str :: "json \<Rightarrow> jstring" and xs :: "json list" and path item :: jstring
  fix x :: json
  assume "x \<in> set xs"
  then have "size x < Suc (size_list size xs)"
    by (induction xs) auto
  then show "((str, x, path), (str, JArr xs, path)) \<in> measure (\<lambda>(str, v, path). size v)"
    by simp
next
  fix str :: "json \<Rightarrow> jstring" and obj :: "(jstring \<times> json) list" and path :: jstring
  fix kv :: "jstring \<times> json"
  assume kv: "kv \<in> set (snd (collectValidations obj))"
  have del: "\<And>k o'. set (deleteKey k o') \<subseteq> set o'"
    by (auto simp: deleteKey_def)
  have s1: "\<And>fv st. set (snd (collectValidationField fv st)) \<subseteq> set (snd st)"
    using del by (auto simp: collectValidationField_def split: prod.splits)
  have s2: "\<And>f st. set (snd (removeField f st)) \<subseteq> set (snd st)"
    using del by (auto simp: removeField_def split: prod.splits)
  have f1: "\<And>fs st. set (snd (fold collectValidationField fs st)) \<subseteq> set (snd st)"
  proof -
    fix fs :: "(jstring \<times> jstring) list" and st :: "jstring list \<times> (jstring \<times> json) list"
    show "set (snd (fold collectValidationField fs st)) \<subseteq> set (snd st)"
      using s1 by (induction fs arbitrary: st) (simp, fastforce)
  qed
  have f2: "\<And>fs st. set (snd (fold removeField fs st)) \<subseteq> set (snd st)"
  proof -
    fix fs :: "jstring list" and st :: "jstring list \<times> (jstring \<times> json) list"
    show "set (snd (fold removeField fs st)) \<subseteq> set (snd st)"
      using s2 by (induction fs arbitrary: st) (simp, fastforce)
  qed
  have "set (snd (collectValidations obj)) \<subseteq> set obj"
    unfolding collectValidations_def using f1 f2 by fastforce
  with kv have "kv \<in> set obj"
    by blast
  moreover have "\<And>e es. e \<in> set es \<Longrightarrow> size (snd e) < size (JObj es)"
  proof -
    fix e :: "jstring \<times> json" and es :: "(jstring \<times> json) list"
    show "e \<in> set es \<Longrightarrow> size (snd e) < size (JObj es)"
      by (induction es) (auto simp: size_prod_simp)
  qed
  ultimately have "size (snd kv) < size (JObj obj)"
    by blast
  then show "((str, snd kv, path @ js ''.'' @ fst kv), (str, JObj obj, path))
      \<in> measure (\<lambda>(str, v, path). size v)"
    by simp
qed

definition cleanJsonSchema :: "(json \<Rightarrow> jstring) \<Rightarrow> json \<Rightarrow> json" where
  "cleanJsonSchema str schema =
     (if \<not> truthy schema \<or> \<not> typeofObject schema then schema
      else cleanObject str schema [])"

text \<open>
  Observations of a cleaned schema: every key that occurs in it at any depth, and whether some
  object in it has an empty array as its \<open>required\<close> property.
\<close>

fun allKeys :: "json \<Rightarrow> jstring list" where
  "allKeys (JObj kvs) = concat (map (\<lambda>kv. fst kv # allKeys (snd kv)) kvs)"
| "allKeys (JArr xs) = concat (map allKeys xs)"
| "allKeys v = []"


text \<open>
  The messages of one object, read off the object without the loops: one entry
  \<open>field: field\<close> for each validation field it has, in the order of \<open>validationFields\<close>,
  then \<open>no additional properties\<close> when its \<open>additionalProperties\<close> is \<open>false\<close>.
\<close>

definition topValidations :: "(jstring \<times> json) list \<Rightarrow> jstring list" where
  "topValidations obj =
     map (\<lambda>f. f @ js '': '' @ f) (filter (\<lambda>f. hasKey f obj) (map fst validationFields))
     @ (if map_of obj (js ''additionalProperties'') = Some (JBool False)
        then [js ''no additional properties''] else [])"

text \<open>The tool schema of the specification's end-to-end scenario 3.\<close>

definition scenarioSchema :: json where
  "scenarioSchema = JObj
     [(js ''type'', JStr (js ''object'')),
      (js ''properties'', JObj
         [(js ''x'', JObj [(js ''type'', JStr (js ''string'')), (js ''minLength'', JNum 3),
                          (js ''pattern'', JStr (js ''^a''))])]),
      (js ''additionalProperties'', JBool False),
      (js ''required'', JArr [JStr (js ''x'')])]"

section \<open>Request adapter (\<open>src/utils/utils.js\<close>)\<close>

subsection \<open>Global replacement by a regular expression\<close>

text \<open>
  \<open>s.replace(/re/g, rep)\<close> scans \<open>s\<close> from the left: where the expression matches, the
  match is replaced and the scan goes on behind it; elsewhere one code unit is copied. The
  matcher \<open>m\<close> gives the rest of the string behind a match that starts at the head of its
  argument. Every expression below matches at least one code unit, which the test on the
  lengths records.
\<close>

function replaceAll :: "(jstring \<Rightarrow> jstring option) \<Rightarrow> jstring \<Rightarrow> jstring \<Rightarrow> jstring" where
  "replaceAll m rep [] = []"
| "replaceAll m rep (c # cs) =
     (case m (c # cs) of
        None \<Rightarrow> c # replaceAll m rep cs
      | Some rest \<Rightarrow>
          if length rest \<le> length cs then rep @ replaceAll m rep rest
          else c # replaceAll m rep cs)"
  by pat_completeness auto
termination
  by (relation "measure (\<lambda>(m, rep, s). length s)") auto

text \<open>The rest of \<open>s\<close> behind the first occurrence of \<open>pat\<close> in it.\<close>

fun afterFirst :: "jstring \<Rightarrow> jstring \<Rightarrow> jstring option" where
  "afterFirst pat [] = (if pat = [] then Some [] else None)"
| "afterFirst pat (c # cs) =
     (if startsWith (c # cs) pat then Some (drop (length pat) (c # cs))
      else afterFirst pat cs)"

text \<open>\<open>/OPEN[\s\S]*?CLOSE/\<close>: the lazy star stops at the first \<open>CLOSE\<close> behind \<open>OPEN\<close>.\<close>

definition matchDelimited :: "jstring \<Rightarrow> jstring \<Rightarrow> jstring \<Rightarrow> jstring option" where
  "matchDelimited opn cls s =
     (if startsWith s opn then afterFirst cls (drop (length opn) s) else None)"

text \<open>
  \<open>/!\[[^\]]*]\([^)]+\)/\<close>, a markdown image. Each greedy run is followed by the one
  character it excludes, so it is the whole run of the other characters.
\<close>

definition matchImage :: "jstring \<Rightarrow> jstring option" where
  "matchImage s =
     (case s of
        c1 # c2 # r \<Rightarrow>
          if c1 = 33 \<and> c2 = 91 then
            (case dropWhile (\<lambda>c. c \<noteq> 93) r of
               d1 # d2 # r2 \<Rightarrow>
                 if d2 = 40 \<and> takeWhile (\<lambda>c. c \<noteq> 41) r2 \<noteq> [] then
                   (case dropWhile (\<lambda>c. c \<noteq> 41) r2 of
                      e # r3 \<Rightarrow> Some r3
                    | [] \<Rightarrow> None)
                 else None
             | _ \<Rightarrow> None)
          else None
      | _ \<Rightarrow> None)"

definition matchCrLf :: "jstring \<Rightarrow> jstring option" where
  "matchCrLf s = (case s of c1 # c2 # r \<Rightarrow> if c1 = 13 \<and> c2 = 10 then Some r else None | _ \<Rightarrow> None)"

subsection \<open>The thought-signature caches\<close>

text \<open>
  \<open>thoughtSignatureMap\<close> (tool-call id to signature) and \<open>textThoughtSignatureMap\<close> (text to
  the signature and the text it was registered with) are module-level maps; the functions
  that write them return the new map.
\<close>

record payload =
  signature :: jstring
  original :: jstring

definition registerThoughtSignature ::
  "jstring \<Rightarrow> jstring \<Rightarrow> (jstring \<rightharpoonup> jstring) \<Rightarrow> (jstring \<rightharpoonup> jstring)" where
  "registerThoughtSignature ident thoughtSignature m =
     (if ident = [] \<or> thoughtSignature = [] then m else m(ident \<mapsto> thoughtSignature))"

definition getThoughtSignature :: "(jstring \<rightharpoonup> jstring) \<Rightarrow> jstring \<Rightarrow> jstring option" where
  "getThoughtSignature m ident = (if ident = [] then None else m ident)"

definition normalizeTextForSignature :: "jstring \<Rightarrow> jstring" where
  "normalizeTextForSignature t =
     trim (replaceAll matchCrLf [10]
       (replaceAll matchImage []
         (replaceAll (matchDelimited (js ''<think>'') (js ''</think>'')) [] t)))"


definition getTextThoughtSignature :: "(jstring \<rightharpoonup> payload) \<Rightarrow> jstring \<Rightarrow> payload option" where
  "getTextThoughtSignature m t =
     (if trim t = [] then None
      else if m t \<noteq> None then m t
      else
        let trimmed = trim t in
        if m trimmed \<noteq> None then m trimmed
        else
          let normalized = normalizeTextForSignature trimmed in
          if normalized = [] then None else m normalized)"

subsection \<open>OpenAI messages and upstream contents\<close>

text \<open>
  An OpenAI chat message, with the types of the chat-completions schema: the content is
  absent, a string, an array of typed items, or (for a tool result) an object; a missing
  \<open>tool_calls\<close> is the empty list. The arguments of a tool call are a JSON string or an
  object already.
\<close>

record contentItem =
  itemType :: jstring
  itemText :: "jstring option"
  itemImageUrl :: "jstring option"

datatype content =
    ContentAbsent
  | ContentString jstring
  | ContentArray "contentItem list"
  | ContentObject "(jstring \<times> json) list"

datatype arguments = ArgString jstring | ArgObject json | ArgOther

record toolCall =
  callId :: jstring
  callType :: jstring
  functionName :: jstring
  functionArguments :: arguments

record message =
  role :: jstring
  content :: content
  tool_calls :: "toolCall list"
  tool_call_id :: jstring

text \<open>A part of an upstream turn; \<open>thoughtSignature\<close> is a field of the part, when set.\<close>

datatype part =
    TextPart jstring "jstring option"
  | InlineData jstring jstring
  | FunctionCall jstring jstring json "jstring option"
  | FunctionResponse jstring jstring "json option"

record turn =
  turnRole :: jstring
  parts :: "part list"

subsection \<open>\<open>extractImagesFromContent\<close> and \<open>handleUserMessage\<close>\<close>

definition isWord :: "nat \<Rightarrow> bool" where
  "isWord c \<longleftrightarrow>
     (48 \<le> c \<and> c \<le> 57) \<or> (65 \<le> c \<and> c \<le> 90) \<or> (97 \<le> c \<and> c \<le> 122) \<or> c = 95"

definition isLineTerminator :: "nat \<Rightarrow> bool" where
  "isLineTerminator c \<longleftrightarrow> c = 10 \<or> c = 13 \<or> c = 8232 \<or> c = 8233"

text \<open>\<open>/^data:image\/(\w+);base64,(.+)$/\<close>: the two groups of a match.\<close>

definition matchDataUrl :: "jstring \<Rightarrow> (jstring \<times> jstring) option" where
  "matchDataUrl url =
     (if startsWith url (js ''data:image/'') then
        let r = drop (length (js ''data:image/'')) url;
            fmt = takeWhile isWord r;
            r2 = dropWhile isWord r;
            d = drop (length (js '';base64,'')) r2
        in if fmt \<noteq> [] \<and> startsWith r2 (js '';base64,'') \<and> d \<noteq> []
              \<and> list_all (\<lambda>c. \<not> isLineTerminator c) d
           then Some (fmt, d) else None
      else None)"

text \<open>
  One step of the loop over a content array; the state is \<open>result\<close>, the text and the
  images so far. \<open>result.text += item.text\<close> appends \<open>undefined\<close> for an item without text.
\<close>

definition extractItem :: "contentItem \<Rightarrow> jstring \<times> part list \<Rightarrow> jstring \<times> part list" where
  "extractItem item result =
     (if itemType item = js ''text''
        then (fst result @ (case itemText item of Some t \<Rightarrow> t | None \<Rightarrow> js ''undefined''),
              snd result)
      else if itemType item = js ''image_url''
        then (case matchDataUrl (case itemImageUrl item of Some u \<Rightarrow> u | None \<Rightarrow> []) of
                Some (fmt, d) \<Rightarrow> (fst result, snd result @ [InlineData (js ''image/'' @ fmt) d])
              | None \<Rightarrow> result)
      else result)"

definition extractImagesFromContent :: "content \<Rightarrow> jstring \<times> part list" where
  "extractImagesFromContent c =
     (case c of
        ContentString s \<Rightarrow> (s, [])
      | ContentArray items \<Rightarrow> fold extractItem items ([], [])
      | _ \<Rightarrow> ([], []))"

definition handleUserMessage :: "jstring \<times> part list \<Rightarrow> turn list \<Rightarrow> turn list" where
  "handleUserMessage extracted antigravityMessages =
     antigravityMessages
       @ [\<lparr>turnRole = js ''user'', parts = TextPart (fst extracted) None # snd extracted\<rparr>]"

subsection \<open>\<open>handleAssistantMessage\<close>\<close>

definition contentText :: "content \<Rightarrow> jstring" where
  "contentText c =
     (case c of
        ContentArray items \<Rightarrow>
          concat (map (\<lambda>item. case itemText item of Some t \<Rightarrow> t | None \<Rightarrow> [])
                   (filter (\<lambda>item. itemType item = js ''text'') items))
      | ContentString s \<Rightarrow> s
      | _ \<Rightarrow> [])"

text \<open>
  One tool call as a \<open>functionCall\<close> part. \<open>parse\<close> is \<open>JSON.parse\<close>, \<open>None\<close> where it
  throws; the arguments are then the empty object.
\<close>

definition toolCallPart ::
  "(jstring \<Rightarrow> json option) \<Rightarrow> (jstring \<rightharpoonup> jstring) \<Rightarrow> toolCall \<Rightarrow> part" where
  "toolCallPart parse sigs tc =
     (let args = (case functionArguments tc of
                    ArgString s \<Rightarrow> (case parse s of Some v \<Rightarrow> v | None \<Rightarrow> JObj [])
                  | ArgObject v \<Rightarrow> v
                  | ArgOther \<Rightarrow> JObj []);
          thoughtSignature = getThoughtSignature sigs (callId tc)
      in FunctionCall (callId tc) (functionName tc) args
           (case thoughtSignature of
              Some s \<Rightarrow> if s \<noteq> [] then Some s else None
            | None \<Rightarrow> None))"

definition handleAssistantMessage ::
  "(jstring \<Rightarrow> json option) \<Rightarrow> (jstring \<rightharpoonup> jstring) \<Rightarrow> (jstring \<rightharpoonup> payload) \<Rightarrow>
   message \<Rightarrow> turn list \<Rightarrow> jstring \<Rightarrow> turn list" where
  "handleAssistantMessage parse sigs textSigs msg antigravityMessages modelName =
     (let hasToolCalls = (tool_calls msg \<noteq> []);
          allowThoughtSignature = includesStr modelName (js ''gemini-3'');
          text = contentText (content msg);
          hasContent = (trim text \<noteq> []);
          antigravityTools = map (toolCallPart parse sigs) (tool_calls msg)
      in if antigravityMessages \<noteq> [] \<and> turnRole (last antigravityMessages) = js ''model''
            \<and> hasToolCalls \<and> \<not> hasContent
         then butlast antigravityMessages
                @ [(last antigravityMessages)
                     \<lparr>parts := parts (last antigravityMessages) @ antigravityTools\<rparr>]
         else
           let textThoughtSignature =
                 (if allowThoughtSignature then getTextThoughtSignature textSigs text else None);
               textParts =
                 (if hasContent then
                    (if allowThoughtSignature \<and> textThoughtSignature = None then []
                     else [TextPart
                             (case textThoughtSignature of
                                Some p \<Rightarrow> original p | None \<Rightarrow> text)
                             (case textThoughtSignature of
                                Some p \<Rightarrow> if signature p \<noteq> [] then Some (signature p) else None
                              | None \<Rightarrow> None)])
                  else [])
           in antigravityMessages @ [\<lparr>turnRole = js ''model'', parts = textParts @ antigravityTools\<rparr>])"

subsection \<open>\<open>handleToolCall\<close>\<close>

fun isFunctionResponse :: "part \<Rightarrow> bool" where
  "isFunctionResponse (FunctionResponse i n out) = True"
| "isFunctionResponse p = False"

fun namesCall :: "jstring \<Rightarrow> part \<Rightarrow> bool" where
  "namesCall ident (FunctionCall i n args s) = (i = ident)"
| "namesCall ident p = False"

fun callName :: "part \<Rightarrow> jstring" where
  "callName (FunctionCall i n args s) = n"
| "callName p = []"

text \<open>
  The search for the name of the call a tool result answers, from the last turn back; the
  argument is the reversed list of turns. A turn whose first matching call has an empty name
  does not end the search.
\<close>

fun findFunctionName :: "jstring \<Rightarrow> turn list \<Rightarrow> jstring" where
  "findFunctionName ident [] = []"
| "findFunctionName ident (t # ts) =
     (if turnRole t = js ''model'' then
        (case List.find (namesCall ident) (parts t) of
           Some p \<Rightarrow> if callName p \<noteq> [] then callName p else findFunctionName ident ts
         | None \<Rightarrow> findFunctionName ident ts)
      else findFunctionName ident ts)"

text \<open>
  The output of a tool result. An array is an object for \<open>typeof\<close>, so arrays and objects
  take the same branch: the \<open>text\<close> property when truthy, else \<open>JSON.stringify\<close> of the
  content, which is the parameter \<open>stringify\<close>.
\<close>

definition toolOutput :: "(content \<Rightarrow> jstring) \<Rightarrow> content \<Rightarrow> json option" where
  "toolOutput stringify c =
     (case c of
        ContentAbsent \<Rightarrow> None
      | ContentString s \<Rightarrow> Some (JStr s)
      | ContentArray items \<Rightarrow> Some (JStr (stringify c))
      | ContentObject obj \<Rightarrow>
          (case map_of obj (js ''text'') of
             Some v \<Rightarrow> if truthy v then Some v else Some (JStr (stringify c))
           | None \<Rightarrow> Some (JStr (stringify c))))"

definition handleToolCall :: "(content \<Rightarrow> jstring) \<Rightarrow> message \<Rightarrow> turn list \<Rightarrow> turn list" where
  "handleToolCall stringify msg antigravityMessages =
     (let name = findFunctionName (tool_call_id msg) (rev antigravityMessages);
          functionResponse =
            FunctionResponse (tool_call_id msg) name (toolOutput stringify (content msg))
      in if antigravityMessages \<noteq> [] \<and> turnRole (last antigravityMessages) = js ''user''
            \<and> list_ex isFunctionResponse (parts (last antigravityMessages))
         then butlast antigravityMessages
                @ [(last antigravityMessages)
                     \<lparr>parts := parts (last antigravityMessages) @ [functionResponse]\<rparr>]
         else antigravityMessages @ [\<lparr>turnRole = js ''user'', parts = [functionResponse]\<rparr>])"

subsection \<open>\<open>openaiMessageToAntigravity\<close>\<close>

text \<open>The external functions the conversion calls: \<open>JSON.parse\<close> and \<open>JSON.stringify\<close>.\<close>

record builtins =
  jsonParse :: "jstring \<Rightarrow> json option"
  jsonStringify :: "content \<Rightarrow> jstring"
  toText :: "json \<Rightarrow> jstring"

definition convertMessage ::
  "builtins \<Rightarrow> (jstring \<rightharpoonup> jstring) \<Rightarrow> (jstring \<rightharpoonup> payload) \<Rightarrow> jstring \<Rightarrow>
   message \<Rightarrow> turn list \<Rightarrow> turn list" where
  "convertMessage b sigs textSigs modelName msg antigravityMessages =
     (if role msg = js ''user'' \<or> role msg = js ''system''
        then handleUserMessage (extractImagesFromContent (content msg)) antigravityMessages
      else if role msg = js ''assistant''
        then handleAssistantMessage (jsonParse b) sigs textSigs msg antigravityMessages modelName
      else if role msg = js ''tool''
        then handleToolCall (jsonStringify b) msg antigravityMessages
      else antigravityMessages)"

definition openaiMessageToAntigravity ::
  "builtins \<Rightarrow> (jstring \<rightharpoonup> jstring) \<Rightarrow> (jstring \<rightharpoonup> payload) \<Rightarrow>
   message list \<Rightarrow> jstring \<Rightarrow> turn list" where
  "openaiMessageToAntigravity b sigs textSigs openaiMessages modelName =
     fold (convertMessage b sigs textSigs modelName) openaiMessages []"

subsection \<open>\<open>generateGenerationConfig\<close>, \<open>convertOpenAIToolsToAntigravity\<close>, \<open>generateRequestBody\<close>\<close>

text \<open>
  \<open>config\<close> is the module \<open>config/config.js\<close>: the defaults of the sampling parameters
  and the system instruction. \<open>a ?? b\<close> is \<open>b\<close> when \<open>a\<close> is \<open>undefined\<close> or \<open>null\<close>.
\<close>

record config =
  default_top_p :: "json option"
  default_top_k :: "json option"
  default_temperature :: "json option"
  default_max_tokens :: "json option"
  systemInstructionText :: jstring

definition nullish :: "json option \<Rightarrow> json option \<Rightarrow> json option" where
  "nullish a b = (case a of None \<Rightarrow> b | Some JNull \<Rightarrow> b | Some v \<Rightarrow> Some v)"

record thinkingConfig =
  includeThoughts :: bool
  thinkingBudget :: nat

record generationConfig =
  topP :: "json option"
  topK :: "json option"
  temperature :: "json option"
  candidateCount :: nat
  maxOutputTokens :: "json option"
  stopSequences :: "jstring list option"
  responseModalities :: "jstring list option"
  thinking :: thinkingConfig

definition generateGenerationConfig ::
  "config \<Rightarrow> (jstring \<times> json) list \<Rightarrow> bool \<Rightarrow> jstring \<Rightarrow> generationConfig" where
  "generateGenerationConfig cfg parameters enableThinking actualModelName =
     (let generationConfig =
            \<lparr>topP = nullish (map_of parameters (js ''top_p'')) (default_top_p cfg),
             topK = nullish (map_of parameters (js ''top_k'')) (default_top_k cfg),
             temperature = nullish (map_of parameters (js ''temperature'')) (default_temperature cfg),
             candidateCount = 1,
             maxOutputTokens = nullish (map_of parameters (js ''max_tokens'')) (default_max_tokens cfg),
             stopSequences = Some (map js [''<|user|>'', ''<|bot|>'', ''<|context_request|>'',
                                           ''<|endoftext|>'', ''<|end_of_turn|>'']),
             responseModalities = None,
             thinking = \<lparr>includeThoughts = enableThinking,
                         thinkingBudget = (if enableThinking then 1024 else 0)\<rparr>\<rparr>
      in if enableThinking \<and> includesStr actualModelName (js ''claude'')
         then generationConfig\<lparr>topP := None\<rparr>
         else generationConfig)"

text \<open>
  An OpenAI tool declaration; \<open>parameters\<close> is an object when present. The cleaner gets a
  shallow copy of it, or the empty object.
\<close>

record tool =
  toolName :: jstring
  toolDescription :: "jstring option"
  toolParameters :: "(jstring \<times> json) list option"

record functionDeclaration =
  declName :: jstring
  declDescription :: "jstring option"
  declParameters :: json

definition convertOpenAIToolsToAntigravity ::
  "(json \<Rightarrow> jstring) \<Rightarrow> tool list \<Rightarrow> functionDeclaration list list" where
  "convertOpenAIToolsToAntigravity str openaiTools =
     map (\<lambda>t. [\<lparr>declName = toolName t,
                  declDescription = toolDescription t,
                  declParameters =
                    cleanJsonSchema str
                      (JObj (case toolParameters t of Some ps \<Rightarrow> ps | None \<Rightarrow> []))\<rparr>])
       openaiTools"

record token =
  projectId :: jstring
  sessionId :: jstring

record request =
  contents :: "turn list"
  systemInstruction :: turn
  tools :: "functionDeclaration list list option"
  toolConfig :: "jstring option"
  generation :: generationConfig
  session :: jstring

record requestBody =
  project :: jstring
  requestId :: jstring
  request :: request
  model :: jstring
  userAgent :: jstring
  requestType :: "jstring option"

fun stripThoughtSignature :: "part \<Rightarrow> part" where
  "stripThoughtSignature (TextPart t s) = TextPart t None"
| "stripThoughtSignature (FunctionCall i n args s) = FunctionCall i n args None"
| "stripThoughtSignature p = p"

text \<open>
  \<open>generateRequestBody\<close>. \<open>rid\<close> is the value \<open>generateRequestId()\<close> returns for this
  request.
\<close>

definition generateRequestBody ::
  "config \<Rightarrow> builtins \<Rightarrow> (jstring \<rightharpoonup> jstring) \<Rightarrow> (jstring \<rightharpoonup> payload) \<Rightarrow> jstring \<Rightarrow>
   message list \<Rightarrow> jstring \<Rightarrow> (jstring \<times> json) list \<Rightarrow> tool list \<Rightarrow> token \<Rightarrow> requestBody" where
  "generateRequestBody cfg b sigs textSigs rid openaiMessages modelName parameters openaiTools tok =
     (let actualModelName = modelName;
          hasAssistantToolCalls =
            list_ex (\<lambda>msg. role msg = js ''assistant'' \<and> tool_calls msg \<noteq> []) openaiMessages;
          baseEnableThinking =
            (endsWith modelName (js ''-thinking'')
             \<or> modelName = js ''gemini-2.5-pro''
             \<or> startsWith modelName (js ''gemini-3-pro-'')
             \<or> modelName = js ''rev19-uic3-1p''
             \<or> modelName = js ''gpt-oss-120b-medium'');
          enableThinking =
            (baseEnableThinking
             \<and> \<not> (includesStr actualModelName (js ''claude'') \<and> hasAssistantToolCalls));
          converted = openaiMessageToAntigravity b sigs textSigs openaiMessages actualModelName;
          contents =
            (if includesStr actualModelName (js ''claude'')
             then map (\<lambda>t. t\<lparr>parts := map stripThoughtSignature (parts t)\<rparr>) converted
             else converted)
      in \<lparr>project = projectId tok,
          requestId = rid,
          request =
            \<lparr>contents = contents,
             systemInstruction =
               \<lparr>turnRole = js ''user'', parts = [TextPart (systemInstructionText cfg) None]\<rparr>,
             tools = Some (convertOpenAIToolsToAntigravity (toText b) openaiTools),
             toolConfig = Some (js ''VALIDATED''),
             generation = generateGenerationConfig cfg parameters enableThinking actualModelName,
             session = sessionId tok\<rparr>,
          model = actualModelName,
          userAgent = js ''antigravity'',
          requestType = None\<rparr>)"


section \<open>API-key gate (\<open>isProtectedApiPath\<close>, \<open>extractApiKeyFromHeaders\<close>, \<open>validateApiKey\<close>)\<close>

text \<open>The class \<open>[\w-]\<close>: ASCII letters, digits, the underscore and the hyphen.\<close>

definition isWordOrHyphen :: "nat \<Rightarrow> bool" where
  "isWordOrHyphen c \<longleftrightarrow>
     (48 \<le> c \<and> c \<le> 57) \<or> (65 \<le> c \<and> c \<le> 90) \<or> (97 \<le> c \<and> c \<le> 122) \<or> c = 95 \<or> c = 45"

text \<open>
  \<open>/^\/(?:[\w-]+\/)?v1\//.test(pathname || '')\<close>. The optional group is one path segment:
  the run of \<open>[\w-]\<close> cannot stop before a character of the class, so the slash that ends
  it follows the whole run.
\<close>

definition isProtectedApiPath :: "jstring \<Rightarrow> bool" where
  "isProtectedApiPath pathname \<longleftrightarrow>
     (case pathname of
        [] \<Rightarrow> False
      | c # rest \<Rightarrow>
          c = 47 \<and>
          (startsWith rest (js ''v1/'')
           \<or> (takeWhile isWordOrHyphen rest \<noteq> []
               \<and> startsWith (dropWhile isWordOrHyphen rest) (js ''/v1/''))))"

text \<open>
  \<open>req.headers\<close> maps the lower-cased header name to the header's value, a string.
  The result \<open>null\<close> of \<open>extractApiKeyFromHeaders\<close> is \<open>None\<close>.
\<close>

type_synonym headers = "jstring \<rightharpoonup> jstring"

definition candidateHeaders :: "jstring list" where
  "candidateHeaders = map js [''x-api-key'', ''api-key'', ''x-api_key'', ''api_key'']"

definition firstCandidate :: "headers \<Rightarrow> jstring option" where
  "firstCandidate hs =
     List.find (\<lambda>v. v \<noteq> []) (List.map_filter hs candidateHeaders)"

definition extractApiKeyFromHeaders :: "headers \<Rightarrow> jstring option" where
  "extractApiKeyFromHeaders hs =
     (case hs (js ''authorization'') of
        None \<Rightarrow> firstCandidate hs
      | Some authHeader \<Rightarrow>
          if startsWith authHeader (js ''Bearer '') then Some (drop 7 authHeader)
          else if authHeader \<noteq> [] then Some authHeader
          else firstCandidate hs)"

datatype validation = Valid | Invalid nat jstring

text \<open>\<open>apiKey\<close> is \<open>config.security?.apiKey\<close>; \<open>None\<close> when it is not set.\<close>

definition validateApiKey :: "jstring option \<Rightarrow> headers \<Rightarrow> validation" where
  "validateApiKey apiKey hs =
     (let providedKey = extractApiKeyFromHeaders hs in
      if apiKey = None \<or> apiKey = Some []
        then Invalid 503 (js ''API Key '' @ [26410, 37197, 32622])
      else if providedKey = None \<or> providedKey = Some [] \<or> providedKey \<noteq> apiKey
        then Invalid 401 (js ''Invalid API Key'')
      else Valid)"

text \<open>
  The middleware in front of every route: it answers with the status and a JSON body
  \<open>{error: message}\<close>, or hands the request on (\<open>next()\<close>).
\<close>

datatype gate = Next | Reject nat json

definition apiKeyGate :: "jstring option \<Rightarrow> jstring \<Rightarrow> headers \<Rightarrow> gate" where
  "apiKeyGate apiKey pathname hs =
     (if isProtectedApiPath pathname
      then (case validateApiKey apiKey hs of
              Invalid status message \<Rightarrow> Reject status (JObj [(js ''error'', JStr message)])
            | Valid \<Rightarrow> Next)
      else Next)"

section \<open>Chat-completion handler (\<open>createChatCompletionHandler\<close>)\<close>

subsection \<open>The response object and the stream helpers\<close>

text \<open>
  The HTTP response \<open>res\<close> of Node: the first \<open>write\<close>, \<open>json\<close> or \<open>end\<close> sends the
  headers. What is written is a list of server-sent events: \<open>Data c\<close> is the line
  \<open>data: \<close> followed by \<open>JSON.stringify\<close> of the chunk \<open>c\<close>, \<open>Raw s\<close> is the string
  \<open>s\<close> as it is.
\<close>

datatype delta =
    NoDelta
  | ToolCallsDelta "(nat \<times> toolCall) list"
  | ReasoningDelta jstring
  | ContentDelta jstring

record chunk =
  chunkId :: jstring
  chunkCreated :: nat
  chunkModel :: jstring
  chunkDelta :: delta
  finish_reason :: "jstring option"
  chunkUsage :: "json option"

datatype sse = Data chunk | Raw jstring

text \<open>The bodies the handler sends with \<open>res.json\<close>.\<close>

datatype body =
    ErrorBody jstring
  | CompletionBody jstring nat jstring jstring "toolCall list option" jstring "json option"

record response =
  statusCode :: nat
  resHeaders :: "jstring \<rightharpoonup> jstring"
  headersSent :: bool
  written :: "sse list"
  jsonBody :: "body option"
  ended :: bool

definition resWrite :: "sse \<Rightarrow> response \<Rightarrow> response" where
  "resWrite e res = res\<lparr>headersSent := True, written := written res @ [e]\<rparr>"

definition resEnd :: "response \<Rightarrow> response" where
  "resEnd res = res\<lparr>headersSent := True, ended := True\<rparr>"

definition resStatus :: "nat \<Rightarrow> response \<Rightarrow> response" where
  "resStatus n res = res\<lparr>statusCode := n\<rparr>"

definition resJson :: "body \<Rightarrow> response \<Rightarrow> response" where
  "resJson b res = res\<lparr>headersSent := True, jsonBody := Some b, ended := True\<rparr>"

definition setStreamHeaders :: "response \<Rightarrow> response" where
  "setStreamHeaders res =
     res\<lparr>resHeaders := (resHeaders res)
            (js ''Content-Type'' \<mapsto> js ''text/event-stream'',
             js ''Cache-Control'' \<mapsto> js ''no-cache'',
             js ''Connection'' \<mapsto> js ''keep-alive'')\<rparr>"

text \<open>\<open>usage\<close> is part of a chunk only when it is truthy.\<close>

definition createStreamChunk ::
  "jstring \<Rightarrow> nat \<Rightarrow> jstring \<Rightarrow> delta \<Rightarrow> jstring option \<Rightarrow> json option \<Rightarrow> chunk" where
  "createStreamChunk ident created mdl d reason usage =
     \<lparr>chunkId = ident, chunkCreated = created, chunkModel = mdl, chunkDelta = d,
      finish_reason = reason,
      chunkUsage = (case usage of Some u \<Rightarrow> if truthy u then Some u else None | None \<Rightarrow> None)\<rparr>"

definition writeStreamData :: "chunk \<Rightarrow> response \<Rightarrow> response" where
  "writeStreamData c res = resWrite (Data c) res"

definition endStream ::
  "jstring \<Rightarrow> nat \<Rightarrow> jstring \<Rightarrow> jstring \<Rightarrow> json option \<Rightarrow> response \<Rightarrow> response" where
  "endStream ident created mdl reason usage res =
     resEnd (resWrite (Raw (js ''data: [DONE]'' @ [10, 10]))
               (writeStreamData (createStreamChunk ident created mdl NoDelta (Some reason) usage)
                  res))"

subsection \<open>Events of the upstream stream\<close>

record event =
  evType :: jstring
  evContent :: jstring
  evToolCalls :: "toolCall list option"
  evUrl :: jstring

definition thinkOpen :: jstring where
  "thinkOpen = [60, 24605, 32771, 62]"

definition thinkClose :: jstring where
  "thinkClose = [60, 47, 24605, 32771, 62]"

text \<open>
  \<open>content.replace(/^<think-open>\n?|\n?<think-close>$/g, '')\<close> with the two markers
  above: an opening marker at the very start goes, with one line feed behind it, and a
  closing marker at the very end goes, with one line feed in front of it.
\<close>

definition stripThinkingTags :: "jstring \<Rightarrow> jstring" where
  "stripThinkingTags s =
     (let r = (if startsWith s thinkOpen
               then (let t = drop (length thinkOpen) s
                     in if startsWith t [10] then drop 1 t else t)
               else s)
      in if endsWith r (10 # thinkClose) then take (length r - length (10 # thinkClose)) r
         else if endsWith r thinkClose then take (length r - length thinkClose) r
         else r)"

text \<open>\<open>content.replace(/<think-open>[\s\S]*?<think-close>/g, '')\<close>.\<close>

definition stripThinkBlocks :: "jstring \<Rightarrow> jstring" where
  "stripThinkBlocks s = replaceAll (matchDelimited thinkOpen thinkClose) [] s"

text \<open>
  The callback of the stream branch for a model that is not an image model; its state is
  \<open>hasToolCall\<close> and the response. A chunk is written only for a delta with a key.
\<close>

definition eventDelta :: "event \<Rightarrow> delta" where
  "eventDelta data =
     (if evType data = js ''tool_calls''
        then ToolCallsDelta
               (let calls = (case evToolCalls data of Some cs \<Rightarrow> cs | None \<Rightarrow> [])
                in zip [0 ..< length calls] calls)
      else if evType data = js ''thinking''
        then ReasoningDelta (stripThinkingTags (evContent data))
      else if evType data = js ''text''
        then (let cleanContent = stripThinkBlocks (evContent data)
              in if cleanContent \<noteq> [] then ContentDelta cleanContent else NoDelta)
      else NoDelta)"

definition onStreamEvent ::
  "jstring \<Rightarrow> nat \<Rightarrow> jstring \<Rightarrow> event \<Rightarrow> bool \<times> response \<Rightarrow> bool \<times> response" where
  "onStreamEvent ident created mdl data st =
     (let d = eventDelta data in
      if d \<noteq> NoDelta
      then (fst st \<or> evType data = js ''tool_calls'',
            writeStreamData (createStreamChunk ident created mdl d None None) (snd st))
      else st)"

text \<open>The callback of the stream branch for an image model; its state is \<open>imageUrls\<close> and the response.\<close>

definition onImageEvent ::
  "jstring \<Rightarrow> nat \<Rightarrow> jstring \<Rightarrow> event \<Rightarrow> jstring list \<times> response \<Rightarrow> jstring list \<times> response" where
  "onImageEvent ident created mdl data st =
     (if evType data = js ''thinking''
        then (fst st, writeStreamData
                (createStreamChunk ident created mdl (ReasoningDelta (evContent data)) None None)
                (snd st))
      else if evType data = js ''image''
        then (fst st @ [evUrl data], snd st)
      else if evType data = js ''text''
        then (fst st, writeStreamData
                (createStreamChunk ident created mdl (ContentDelta (evContent data)) None None)
                (snd st))
      else st)"

subsection \<open>The handler\<close>

text \<open>An exception: its message and its \<open>statusCode\<close>, when it has one.\<close>

record failure =
  errMessage :: jstring
  errStatus :: "nat option"

record logEntry =
  logSuccess :: bool
  logStatus :: nat
  logMessage :: "jstring option"

text \<open>
  The body of a chat request, with \<open>stream\<close> already defaulted to \<open>true\<close>, and the options
  of the route.
\<close>

record chatRequest =
  reqMessages :: "message list option"
  reqModel :: jstring
  reqStream :: bool
  reqTools :: "tool list"
  reqParams :: "(jstring \<times> json) list"

record routeOptions =
  tokenMissingError :: "jstring option"
  tokenMissingStatus :: "nat option"

text \<open>
  What the handler obtains from outside: the configuration and the caches, the value of
  \<open>generateRequestId()\<close>, the two results of \<open>createResponseMeta()\<close> (in the \<open>try\<close>
  block and in the \<open>catch\<close> block), the result of \<open>resolveToken\<close>, and the upstream. A
  streaming call delivers events to the callback and then returns the usage or throws; the
  other call returns the content, the tool calls and the usage, or throws.
\<close>

record env =
  envConfig :: config
  envBuiltins :: builtins
  envSigs :: "jstring \<rightharpoonup> jstring"
  envTextSigs :: "jstring \<rightharpoonup> payload"
  envRequestId :: jstring
  envMeta :: "jstring \<times> nat"
  envErrorMeta :: "jstring \<times> nat"
  envToken :: "failure + token option"
  envStream :: "requestBody \<Rightarrow> token \<Rightarrow> event list \<times> (failure + json option)"
  envNoStream :: "requestBody \<Rightarrow> token \<Rightarrow> failure + (jstring \<times> toolCall list \<times> json option)"

definition imageNote :: jstring where
  "imageNote = [65288, 24403, 21069, 20316, 20026, 22270, 20687, 29983, 25104, 27169, 22411, 20351, 29992, 65292, 35831, 26681, 25454, 25551, 36848, 29983, 25104, 22270, 29255, 65289]"

definition tokenMissingDefault :: jstring where
  "tokenMissingDefault = [27809, 26377, 21487, 29992, 30340] @ js '' token'' @ [65292, 35831, 20808, 36890, 36807] @ js '' OAuth '' @ [38754, 26495, 25110] @ js '' npm run login '' @ [33719, 21462, 12290]"

definition errorPrefix :: jstring where
  "errorPrefix = [38169, 35823, 58, 32]"

text \<open>The changes the handler makes to the request body of an image model.\<close>

definition imageRequest :: "requestBody \<Rightarrow> requestBody" where
  "imageRequest rb =
     rb\<lparr>request := (request rb)
           \<lparr>generation :=
              \<lparr>topP = None, topK = None, temperature = None, candidateCount = 1,
               maxOutputTokens = None, stopSequences = None,
               responseModalities = Some [js ''TEXT'', js ''IMAGE''],
               thinking = \<lparr>includeThoughts = True, thinkingBudget = 1024\<rparr>\<rparr>,
            systemInstruction :=
              (systemInstruction (request rb))
                \<lparr>parts := (case parts (systemInstruction (request rb)) of
                              TextPart t s # ps \<Rightarrow> TextPart (t @ imageNote) s # ps
                            | ps \<Rightarrow> ps)\<rparr>,
            tools := None,
            toolConfig := None\<rparr>,
         requestType := Some (js ''image_gen'')\<rparr>"

definition buildRequest :: "env \<Rightarrow> chatRequest \<Rightarrow> message list \<Rightarrow> token \<Rightarrow> requestBody" where
  "buildRequest e rq msgs tok =
     (let requestBody =
            generateRequestBody (envConfig e) (envBuiltins e) (envSigs e) (envTextSigs e)
              (envRequestId e) msgs (reqModel rq) (reqParams rq) (reqTools rq) tok
      in if includesStr (reqModel rq) (js ''-image'') then imageRequest requestBody
         else requestBody)"

text \<open>The \<open>catch\<close> block. \<open>a || b\<close> on a number takes \<open>b\<close> for \<open>0\<close> as for \<open>undefined\<close>.\<close>

definition orElse :: "nat option \<Rightarrow> nat \<Rightarrow> nat" where
  "orElse a b = (case a of Some n \<Rightarrow> if n \<noteq> 0 then n else b | None \<Rightarrow> b)"

definition modelOrUnknown :: "jstring \<Rightarrow> jstring" where
  "modelOrUnknown mdl = (if mdl \<noteq> [] then mdl else js ''unknown'')"

definition onError ::
  "env \<Rightarrow> chatRequest \<Rightarrow> failure \<Rightarrow> response \<times> logEntry list \<Rightarrow> response \<times> logEntry list" where
  "onError e rq err st =
     (let res = fst st;
          errorStatus = orElse (errStatus err) (if statusCode res \<ge> 400 then statusCode res else 500);
          logs = snd st @ [\<lparr>logSuccess = False, logStatus = errorStatus,
                             logMessage = Some (errMessage err)\<rparr>]
      in if \<not> headersSent res then
           (let ident = fst (envErrorMeta e);
                created = snd (envErrorMeta e);
                errorContent = errorPrefix @ errMessage err
            in if reqStream rq
               then (endStream ident created (modelOrUnknown (reqModel rq)) (js ''stop'') None
                       (writeStreamData
                          (createStreamChunk ident created (modelOrUnknown (reqModel rq))
                             (ContentDelta errorContent) None None)
                          (setStreamHeaders res)),
                     logs)
               else (resJson
                       (CompletionBody ident created (modelOrUnknown (reqModel rq)) errorContent
                          None (js ''stop'') None)
                       (resStatus (orElse (errStatus err) 500) res),
                     logs))
         else (res, logs))"

definition successLog :: "response \<Rightarrow> logEntry" where
  "successLog res = \<lparr>logSuccess = True, logStatus = orElse (Some (statusCode res)) 200,
                     logMessage = None\<rparr>"

definition imageMarkdown :: "jstring list \<Rightarrow> jstring" where
  "imageMarkdown urls = join [10, 10] (map (\<lambda>url. js ''![image]('' @ url @ js '')'') urls)"

definition streamChat ::
  "env \<Rightarrow> chatRequest \<Rightarrow> requestBody \<Rightarrow> token \<Rightarrow> response \<times> logEntry list \<Rightarrow>
   response \<times> logEntry list" where
  "streamChat e rq rb tok st =
     (let ident = fst (envMeta e);
          created = snd (envMeta e);
          mdl = reqModel rq;
          res0 = setStreamHeaders (fst st);
          events = fst (envStream e rb tok);
          outcome = snd (envStream e rb tok)
      in if includesStr mdl (js ''-image'')
         then
           (let collected = fold (onImageEvent ident created mdl) events ([], res0) in
            case outcome of
              Inl err \<Rightarrow> onError e rq err (snd collected, snd st)
            | Inr usage \<Rightarrow>
                (let res1 = (if fst collected \<noteq> []
                             then writeStreamData
                                    (createStreamChunk ident created mdl
                                       (ContentDelta (imageMarkdown (fst collected))) None None)
                                    (snd collected)
                             else snd collected);
                     res2 = endStream ident created mdl (js ''stop'') usage res1
                 in (res2, snd st @ [successLog res2])))
         else
           (let streamed = fold (onStreamEvent ident created mdl) events (False, res0) in
            case outcome of
              Inl err \<Rightarrow> onError e rq err (snd streamed, snd st)
            | Inr usage \<Rightarrow>
                (let res2 = endStream ident created mdl
                              (if fst streamed then js ''tool_calls'' else js ''stop'') usage
                              (snd streamed)
                 in (res2, snd st @ [successLog res2]))))"

definition chatCompletion ::
  "env \<Rightarrow> routeOptions \<Rightarrow> chatRequest \<Rightarrow> response \<times> logEntry list \<Rightarrow> response \<times> logEntry list" where
  "chatCompletion e opts rq st =
     (case reqMessages rq of
        None \<Rightarrow>
          (resJson (ErrorBody (js ''messages is required'')) (resStatus 400 (fst st)),
           snd st @ [\<lparr>logSuccess = False, logStatus = 400,
                      logMessage = Some (js ''messages is required'')\<rparr>])
      | Some msgs \<Rightarrow>
          (case envToken e of
             Inl err \<Rightarrow> onError e rq err st
           | Inr None \<Rightarrow>
               (let message = (case tokenMissingError opts of
                                 Some m \<Rightarrow> if m \<noteq> [] then m else tokenMissingDefault
                               | None \<Rightarrow> tokenMissingDefault);
                    status = orElse (tokenMissingStatus opts) 503
                in (resJson (ErrorBody message) (resStatus status (fst st)),
                    snd st @ [\<lparr>logSuccess = False, logStatus = status,
                               logMessage = Some message\<rparr>]))
           | Inr (Some tok) \<Rightarrow>
               (let rb = buildRequest e rq msgs tok in
                if reqStream rq then streamChat e rq rb tok st
                else
                  (case envNoStream e rb tok of
                     Inl err \<Rightarrow> onError e rq err st
                   | Inr result \<Rightarrow>
                       (let ident = fst (envMeta e);
                            created = snd (envMeta e);
                            text = fst result;
                            toolCalls = fst (snd result);
                            usage = snd (snd result);
                            finishReason = (if toolCalls \<noteq> [] then js ''tool_calls'' else js ''stop'');
                            res1 = resJson
                                     (CompletionBody ident created (reqModel rq) text
                                        (if toolCalls \<noteq> [] then Some toolCalls else None)
                                        finishReason
                                        (Some (case usage of
                                                 Some u \<Rightarrow> if truthy u then u else JNull
                                               | None \<Rightarrow> JNull)))
                                     (fst st)
                        in (res1, snd st @ [successLog res1]))))))"

text \<open>The response as the handler receives it: status 200, nothing sent.\<close>

definition freshResponse :: response where
  "freshResponse =
     \<lparr>statusCode = 200, resHeaders = Map.empty, headersSent = False, written = [],
      jsonBody = None, ended = False\<rparr>"

text \<open>A written event that carries tool calls, and one that carries reasoning.\<close>

fun isToolCallChunk :: "sse \<Rightarrow> bool" where
  "isToolCallChunk (Data c) = (case chunkDelta c of ToolCallsDelta cs \<Rightarrow> True | _ \<Rightarrow> False)"
| "isToolCallChunk (Raw s) = False"

fun isReasoningChunk :: "sse \<Rightarrow> bool" where
  "isReasoningChunk (Data c) = (case chunkDelta c of ReasoningDelta r \<Rightarrow> True | _ \<Rightarrow> False)"
| "isReasoningChunk (Raw s) = False"

text \<open>What the two callbacks write for a list of events, event by event.\<close>

definition streamChunks :: "jstring \<Rightarrow> nat \<Rightarrow> jstring \<Rightarrow> event list \<Rightarrow> sse list" where
  "streamChunks ident created mdl events =
     concat (map (\<lambda>ev. if eventDelta ev \<noteq> NoDelta
                        then [Data (createStreamChunk ident created mdl (eventDelta ev) None None)]
                        else []) events)"

definition imageChunks :: "jstring \<Rightarrow> nat \<Rightarrow> jstring \<Rightarrow> event list \<Rightarrow> sse list" where
  "imageChunks ident created mdl events =
     concat (map (\<lambda>ev. if evType ev = js ''thinking''
                        then [Data (createStreamChunk ident created mdl
                                (ReasoningDelta (evContent ev)) None None)]
                        else if evType ev = js ''image'' then []
                        else if evType ev = js ''text''
                        then [Data (createStreamChunk ident created mdl
                                (ContentDelta (evContent ev)) None None)]
                        else []) events)"

text \<open>
  The termination of a stream in the words of the specification: the last two writes are a
  chunk with an empty delta, whose \<open>finish_reason\<close> is \<open>tool_calls\<close> when a chunk with
  tool calls was written before it and \<open>stop\<close> otherwise, and the line \<open>data: [DONE]\<close>.
\<close>

definition terminatedBySpec :: "sse list \<Rightarrow> bool" where
  "terminatedBySpec out =
     (case rev out of
        Raw l # Data fin # ws \<Rightarrow>
          l = js ''data: [DONE]'' @ [10, 10] \<and> chunkDelta fin = NoDelta
          \<and> finish_reason fin
              = Some (if list_ex isToolCallChunk ws then js ''tool_calls'' else js ''stop'')
      | _ \<Rightarrow> False)"

text \<open>
  An environment for concrete runs: one credential, empty caches, and an upstream that
  delivers the given events and outcome whatever the request.
\<close>

definition scenarioEnv ::
  "event list \<Rightarrow> (failure + json option) \<Rightarrow>
   (failure + (jstring \<times> toolCall list \<times> json option)) \<Rightarrow> env" where
  "scenarioEnv events outcome answer =
     \<lparr>envConfig = \<lparr>default_top_p = None, default_top_k = None, default_temperature = None,
                   default_max_tokens = None, systemInstructionText = []\<rparr>,
      envBuiltins = \<lparr>jsonParse = (\<lambda>s. None), jsonStringify = (\<lambda>c. []), toText = (\<lambda>v. [])\<rparr>,
      envSigs = Map.empty,
      envTextSigs = Map.empty,
      envRequestId = js ''req-1'',
      envMeta = (js ''chatcmpl-1'', 1),
      envErrorMeta = (js ''chatcmpl-2'', 2),
      envToken = Inr (Some \<lparr>projectId = js ''p1'', sessionId = js ''s1''\<rparr>),
      envStream = (\<lambda>rb tok. (events, outcome)),
      envNoStream = (\<lambda>rb tok. answer)\<rparr>"

definition scenarioRequest :: "jstring \<Rightarrow> bool \<Rightarrow> chatRequest" where
  "scenarioRequest mdl stream =
     \<lparr>reqMessages = Some [\<lparr>role = js ''user'', content = ContentString (js ''ping''),
                           tool_calls = [], tool_call_id = []\<rparr>],
      reqModel = mdl, reqStream = stream, reqTools = [], reqParams = []\<rparr>"

definition textEvent :: "jstring \<Rightarrow> event" where
  "textEvent s = \<lparr>evType = js ''text'', evContent = s, evToolCalls = None, evUrl = []\<rparr>"

definition toolCallsEvent :: "toolCall list \<Rightarrow> event" where
  "toolCallsEvent cs = \<lparr>evType = js ''tool_calls'', evContent = [], evToolCalls = Some cs, evUrl = []\<rparr>"

section \<open>Credential import (\<open>normalizeTomlAccount\<close>, \<open>mergeAccounts\<close>, \<open>POST /auth/accounts/import-toml\<close>)\<close>

text \<open>
  An account is a JSON object, the list of its properties. \<open>obj[k] = v\<close> replaces the value
  of a property the object has and appends the property otherwise; \<open>{...a, ...b}\<close> keeps the
  properties of \<open>a\<close>, with the values \<open>b\<close> gives them, and appends the other properties
  of \<open>b\<close>.
\<close>

type_synonym account = "(jstring \<times> json) list"

















subsection \<open>The route\<close>

text \<open>
  The accounts file: missing, not readable as a JSON array, or an array of accounts. The
  body of the request carries the TOML text, when it is a non-empty string, and the two
  flags with their defaults applied. \<open>parseToml\<close> is the TOML parser: an error message or
  the top-level table.
\<close>

datatype accountsFile = Missing | Unreadable | Stored "account list"




subsection \<open>The merge policy in the words of the specification\<close>












section \<open>Facts about strings\<close>

lemma js_inj: "js a = js b \<longleftrightarrow> a = b"
  by (simp add: js_def inj_map_eq_map inj_on_def)

lemma startsWith_append: "startsWith (p @ r) p"
  by (simp add: startsWith_def)

lemma startsWith_iff: "startsWith s p \<longleftrightarrow> (\<exists>r. s = p @ r)"
proof
  assume "startsWith s p"
  then have "s = p @ drop (length p) s"
    by (metis append_take_drop_id startsWith_def)
  then show "\<exists>r. s = p @ r" ..
next
  assume "\<exists>r. s = p @ r"
  then show "startsWith s p"
    by (auto simp: startsWith_def)
qed

lemma endsWith_iff: "endsWith s p \<longleftrightarrow> (\<exists>q. s = q @ p)"
proof
  assume "endsWith s p"
  then have "s = take (length s - length p) s @ p"
    by (metis append_take_drop_id endsWith_def)
  then show "\<exists>q. s = q @ p" ..
next
  assume "\<exists>q. s = q @ p"
  then show "endsWith s p"
    by (auto simp: endsWith_def)
qed

lemma includesStr_iff: "includesStr s p \<longleftrightarrow> (\<exists>q r. s = q @ p @ r)"
proof (induction s)
  case Nil
  then show ?case by auto
next
  case (Cons c cs)
  show ?case
  proof
    assume "includesStr (c # cs) p"
    then consider "startsWith (c # cs) p" | "includesStr cs p"
      by auto
    then show "\<exists>q r. c # cs = q @ p @ r"
    proof cases
      case 1
      then obtain r where "c # cs = [] @ p @ r"
        by (auto simp: startsWith_iff)
      then show ?thesis by blast
    next
      case 2
      with Cons.IH obtain q r where "cs = q @ p @ r"
        by blast
      then have "c # cs = (c # q) @ p @ r"
        by simp
      then show ?thesis by blast
    qed
  next
    assume "\<exists>q r. c # cs = q @ p @ r"
    then obtain q r where e: "c # cs = q @ p @ r"
      by blast
    show "includesStr (c # cs) p"
    proof (cases q)
      case Nil
      with e have "startsWith (c # cs) p"
        by (auto simp: startsWith_iff)
      then show ?thesis by simp
    next
      case (Cons d q')
      with e have "cs = q' @ p @ r"
        by simp
      with Cons.IH have "includesStr cs p"
        by blast
      then show ?thesis by simp
    qed
  qed
qed

section \<open>Properties of the schema cleaner\<close>

lemma hasKey_deleteKey: "hasKey k (deleteKey k' obj) \<longleftrightarrow> k \<noteq> k' \<and> hasKey k obj"
  by (auto simp: hasKey_def deleteKey_def)

lemma map_of_deleteKey: "k \<noteq> k' \<Longrightarrow> map_of (deleteKey k' obj) k = map_of obj k"
  by (induction obj) (auto simp: deleteKey_def)

lemma map_of_deleteKey_same: "map_of (deleteKey k obj) k = None"
  by (induction obj) (auto simp: deleteKey_def)

lemma deleteKey_absent: "\<not> hasKey k obj \<Longrightarrow> deleteKey k obj = obj"
  by (induction obj) (auto simp: hasKey_def deleteKey_def)

lemma map_of_absent: "\<not> hasKey k obj \<Longrightarrow> map_of obj k = None"
  by (simp add: hasKey_def map_of_eq_None_iff)

lemma filter_deleteKey:
  "filter P (deleteKey k obj) = filter (\<lambda>kv. fst kv \<noteq> k \<and> P kv) obj"
  by (induction obj) (auto simp: deleteKey_def)

lemma collectValidationField_step:
  "collectValidationField fv (vals, obj) =
     (vals @ (if hasKey (fst fv) obj then [fst fv @ js '': '' @ snd fv] else []),
      deleteKey (fst fv) obj)"
  by (simp add: collectValidationField_def deleteKey_absent)

lemma removeField_step:
  "removeField f (vals, obj) =
     (vals @ (if f = js ''additionalProperties'' \<and> map_of obj f = Some (JBool False)
              then [js ''no additional properties''] else []),
      deleteKey f obj)"
  by (auto simp: removeField_def deleteKey_absent map_of_absent)

lemma fold_collectValidationField:
  "distinct (map fst fvs) \<Longrightarrow>
   fold collectValidationField fvs (vals, obj) =
     (vals @ map (\<lambda>fv. fst fv @ js '': '' @ snd fv) (filter (\<lambda>fv. hasKey (fst fv) obj) fvs),
      filter (\<lambda>kv. fst kv \<notin> set (map fst fvs)) obj)"
proof (induction fvs arbitrary: vals obj)
  case Nil
  then show ?case by simp
next
  case (Cons fv fvs)
  have keep: "filter (\<lambda>x. hasKey (fst x) (deleteKey (fst fv) obj)) fvs
            = filter (\<lambda>x. hasKey (fst x) obj) fvs"
  proof (intro filter_cong refl)
    fix x assume "x \<in> set fvs"
    with Cons.prems have "fst x \<noteq> fst fv"
      by (auto simp: image_iff)
    then show "hasKey (fst x) (deleteKey (fst fv) obj) = hasKey (fst x) obj"
      by (simp add: hasKey_deleteKey)
  qed
  have "fold collectValidationField (fv # fvs) (vals, obj)
      = fold collectValidationField fvs
          (vals @ (if hasKey (fst fv) obj then [fst fv @ js '': '' @ snd fv] else []),
           deleteKey (fst fv) obj)"
    by (simp add: collectValidationField_step)
  also have "\<dots> = ((vals @ (if hasKey (fst fv) obj then [fst fv @ js '': '' @ snd fv] else []))
        @ map (\<lambda>fv. fst fv @ js '': '' @ snd fv) (filter (\<lambda>x. hasKey (fst x) obj) fvs),
      filter (\<lambda>kv. fst kv \<notin> set (map fst fvs)) (deleteKey (fst fv) obj))"
    using Cons.prems by (subst Cons.IH) (simp_all add: keep)
  finally show ?case
    by (simp add: filter_deleteKey)
qed

lemma fold_removeField:
  "distinct fs \<Longrightarrow>
   fold removeField fs (vals, obj) =
     (vals @ (if js ''additionalProperties'' \<in> set fs
                 \<and> map_of obj (js ''additionalProperties'') = Some (JBool False)
              then [js ''no additional properties''] else []),
      filter (\<lambda>kv. fst kv \<notin> set fs) obj)"
proof (induction fs arbitrary: vals obj)
  case Nil
  then show ?case by simp
next
  case (Cons f fs)
  have "fold removeField (f # fs) (vals, obj)
      = fold removeField fs
          (vals @ (if f = js ''additionalProperties'' \<and> map_of obj f = Some (JBool False)
              then [js ''no additional properties''] else []),
           deleteKey f obj)"
    by (simp add: removeField_step)
  also have "\<dots> = ((vals @ (if f = js ''additionalProperties'' \<and> map_of obj f = Some (JBool False)
              then [js ''no additional properties''] else []))
       @ (if js ''additionalProperties'' \<in> set fs
                 \<and> map_of (deleteKey f obj) (js ''additionalProperties'') = Some (JBool False)
              then [js ''no additional properties''] else []),
      filter (\<lambda>kv. fst kv \<notin> set fs) (deleteKey f obj))"
    using Cons.prems by (subst Cons.IH) simp_all
  finally have eq: "fold removeField (f # fs) (vals, obj)
     = ((vals @ (if f = js ''additionalProperties'' \<and> map_of obj f = Some (JBool False)
              then [js ''no additional properties''] else []))
       @ (if js ''additionalProperties'' \<in> set fs
                 \<and> map_of (deleteKey f obj) (js ''additionalProperties'') = Some (JBool False)
              then [js ''no additional properties''] else []),
      filter (\<lambda>kv. fst kv \<notin> set fs) (deleteKey f obj))" .
  show ?case
  proof (cases "f = js ''additionalProperties''")
    case True
    with Cons.prems eq show ?thesis
      by (simp add: filter_deleteKey)
  next
    case False
    then have "map_of (deleteKey f obj) (js ''additionalProperties'')
        = map_of obj (js ''additionalProperties'')"
      by (simp add: map_of_deleteKey)
    with False eq show ?thesis
      by (simp add: filter_deleteKey)
  qed
qed

lemma distinct_validationFields: "distinct (map fst validationFields)"
  by (simp add: validationFields_def js_inj)

lemma distinct_fieldsToRemove: "distinct fieldsToRemove"
  by (simp add: fieldsToRemove_def js_inj)

lemma validation_not_removed: "set (map fst validationFields) \<inter> set fieldsToRemove = {}"
  by (simp add: validationFields_def fieldsToRemove_def js_inj)

lemma snd_validationFields: "map (\<lambda>fv. fst fv @ js '': '' @ snd fv) (filter (\<lambda>fv. hasKey (fst fv) obj) validationFields)
  = map (\<lambda>f. f @ js '': '' @ f) (filter (\<lambda>f. hasKey f obj) (map fst validationFields))"
  by (simp add: validationFields_def filter_map comp_def)

lemma collectValidations_eq:
  "collectValidations obj =
     (topValidations obj,
      filter (\<lambda>kv. fst kv \<notin> set (map fst validationFields) \<and> fst kv \<notin> set fieldsToRemove) obj)"
proof -
  have a: "map_of (filter (\<lambda>kv. fst kv \<notin> set (map fst validationFields)) obj) (js ''additionalProperties'')
        = map_of obj (js ''additionalProperties'')"
    by (induction obj) (auto simp: validationFields_def js_inj)
  have b: "js ''additionalProperties'' \<in> set fieldsToRemove"
    by (simp add: fieldsToRemove_def)
  show ?thesis
    unfolding collectValidations_def
    by (simp only: fold_collectValidationField[OF distinct_validationFields]
          fold_removeField[OF distinct_fieldsToRemove] a b topValidations_def
          snd_validationFields append_Nil filter_filter if_True simp_thms)
qed


lemma concat_map_if:
  "concat (map (\<lambda>x. if c x then [] else [f x]) xs) = map f (filter (\<lambda>x. \<not> c x) xs)"
  by (induction xs) auto

lemma concat_map_if2:
  "concat (map (\<lambda>x. if c x then [] else if d x then [] else g x) xs)
     = concat (map g (filter (\<lambda>x. \<not> c x \<and> \<not> d x) xs))"
  by (induction xs) auto

lemma cleanObject_JObj:
  "cleanObject str (JObj obj) path =
     JObj (dropEmptyRequired
       (map (\<lambda>kv. (fst kv,
               if fst kv = js ''description'' \<and> topValidations obj \<noteq> [] \<and> path = []
               then JStr (describeWith str (snd kv) (topValidations obj))
               else if typeofObject (snd kv)
                    then cleanObject str (snd kv) (path @ js ''.'' @ fst kv)
                    else snd kv))
          (filter (\<lambda>kv. fst kv \<notin> set (map fst validationFields) \<and> fst kv \<notin> set fieldsToRemove
                        \<and> fst kv \<notin> set objectPrototypeKeys) obj)))"
proof -
  have one: "(if c then [a] else [b]) = [if c then a else b]" for c and a b :: "jstring \<times> json"
    by simp
  have pair: "(if c then (k, a) else (k, b)) = (k, if c then a else b)" for c k and a b :: json
    by simp
  have flt: "filter (\<lambda>x. fst x \<notin> set (map fst validationFields) \<and>
               fst x \<notin> set fieldsToRemove \<and>
               fst x \<notin> set (map fst validationFields) \<and>
               fst x \<notin> set objectPrototypeKeys) obj
     = filter (\<lambda>kv. fst kv \<notin> set (map fst validationFields) \<and> fst kv \<notin> set fieldsToRemove
                        \<and> fst kv \<notin> set objectPrototypeKeys) obj"
    by (rule filter_cong) auto
  show ?thesis
    by (simp add: collectValidations_eq Let_def concat_map_if2 one pair concat_map_if[where c="\<lambda>x. False", simplified]
        inValidationFields_def filter_filter flt del: set_map cong: filter_cong) 
qed


lemma allKeys_primitive: "\<not> typeofObject v \<Longrightarrow> allKeys v = []"
  by (cases v) auto

lemma allKeys_JObj_set:
  "set (allKeys (JObj kvs)) = fst ` set kvs \<union> (\<Union>kv \<in> set kvs. set (allKeys (snd kv)))"
  by auto

lemma cleanObject_if:
  "(if typeofObject v then cleanObject str v path else v) = cleanObject str v path"
  by (cases v) auto

lemma cleanObject_JArr:
  "cleanObject str (JArr xs) path = JArr (map (\<lambda>x. cleanObject str x path) xs)"
  by (simp add: cleanObject_if)

lemma cleanObject_JObj':
  "cleanObject str (JObj obj) path =
     JObj (dropEmptyRequired
       (map (\<lambda>kv. (fst kv,
               if fst kv = js ''description'' \<and> topValidations obj \<noteq> [] \<and> path = []
               then JStr (describeWith str (snd kv) (topValidations obj))
               else cleanObject str (snd kv) (path @ js ''.'' @ fst kv)))
          (filter (\<lambda>kv. fst kv \<notin> set (map fst validationFields) \<and> fst kv \<notin> set fieldsToRemove
                        \<and> fst kv \<notin> set objectPrototypeKeys) obj)))"
  unfolding cleanObject_JObj cleanObject_if ..



lemma map_of_dropEmptyRequired:
  "map_of (dropEmptyRequired xs) k =
     (if k = js ''required'' \<and> map_of xs k = Some (JArr []) then None else map_of xs k)"
  by (auto simp: dropEmptyRequired_def map_of_deleteKey map_of_deleteKey_same
      split: option.splits json.splits list.splits)


lemma map_of_map_filter:
  "map_of (map (\<lambda>kv. (fst kv, H (fst kv) (snd kv))) (filter (\<lambda>kv. Q (fst kv)) obj)) k
     = (if Q k then map_option (H k) (map_of obj k) else None)"
  by (induction obj) auto

lemma cleanObject_eq_JArr_Nil:
  "cleanObject str v path = JArr [] \<longleftrightarrow> v = JArr []"
  by (cases v) (auto simp: cleanObject_JArr cleanObject_JObj' simp del: cleanObject.simps(1,2))

lemma cleanObject_field:
  assumes "k \<notin> set fieldsToRemove" "k \<notin> set (map fst validationFields)"
    "k \<notin> set objectPrototypeKeys"
  shows "\<exists>out. cleanObject str (JObj obj) path = JObj out \<and>
     map_of out k =
       (case map_of obj k of
          None \<Rightarrow> None
        | Some v \<Rightarrow>
            if k = js ''description'' \<and> topValidations obj \<noteq> [] \<and> path = []
            then Some (JStr (describeWith str v (topValidations obj)))
            else if k = js ''required'' \<and> v = JArr [] then None
            else Some (cleanObject str v (path @ js ''.'' @ k)))"
proof -
  define H where "H = (\<lambda>k v. if k = js ''description'' \<and> topValidations obj \<noteq> [] \<and> path = []
               then JStr (describeWith str v (topValidations obj))
               else cleanObject str v (path @ js ''.'' @ k))"
  define Q where "Q = (\<lambda>k. k \<notin> set (map fst validationFields) \<and> k \<notin> set fieldsToRemove
                        \<and> k \<notin> set objectPrototypeKeys)"
  define out where "out = dropEmptyRequired
      (map (\<lambda>kv. (fst kv, H (fst kv) (snd kv))) (filter (\<lambda>kv. Q (fst kv)) obj))"
  have eq: "cleanObject str (JObj obj) path = JObj out"
    unfolding cleanObject_JObj' out_def H_def Q_def ..
  have Qk: "Q k"
    using assms by (simp add: Q_def)
  have neq: "js ''required'' \<noteq> js ''description''"
    by (simp add: js_inj)
  have inner: "map_of (map (\<lambda>kv. (fst kv, H (fst kv) (snd kv))) (filter (\<lambda>kv. Q (fst kv)) obj)) k
      = map_option (H k) (map_of obj k)"
    using Qk by (simp only: map_of_map_filter if_True)
  have "map_of out k =
       (case map_of obj k of
          None \<Rightarrow> None
        | Some v \<Rightarrow>
            if k = js ''description'' \<and> topValidations obj \<noteq> [] \<and> path = []
            then Some (JStr (describeWith str v (topValidations obj)))
            else if k = js ''required'' \<and> v = JArr [] then None
            else Some (cleanObject str v (path @ js ''.'' @ k)))"
  proof (cases "map_of obj k")
    case None
    then show ?thesis
      unfolding out_def map_of_dropEmptyRequired inner by simp
  next
    case (Some v)
    then show ?thesis
      unfolding out_def map_of_dropEmptyRequired inner
      using neq by (auto simp: H_def cleanObject_eq_JArr_Nil)
  qed
  with eq show ?thesis
    by blast
qed

lemma cleanJsonSchema_cleanObject: "cleanJsonSchema str s = cleanObject str s []"
  by (cases s) (auto simp: cleanJsonSchema_def)


lemmas clean_eval =
  cleanJsonSchema_def collectValidations_def collectValidationField_def
  removeField_def validationFields_def fieldsToRemove_def objectPrototypeKeys_def
  inValidationFields_def hasKey_def deleteKey_def dropEmptyRequired_def js_inj




text \<open>
  A property whose name a plain object inherits from \<open>Object.prototype\<close> is dropped too,
  because the cleaner tests \<open>key in validationFields\<close>.
\<close>

lemma cleanJsonSchema_inherited_name_dropped:
  "cleanJsonSchema (\<lambda>v. [])
      (JObj [(js ''properties'', JObj [(js ''constructor'', JObj [(js ''type'', JStr (js ''string''))])])])
     = JObj [(js ''properties'', JObj [])]"
  by (simp add: clean_eval)

text \<open>
  Claim C3, as the code has it. The messages of an object are \<open>field: field\<close> entries in a
  fixed order followed by \<open>no additional properties\<close>. Only the messages of the top-level
  object are surfaced, and only into a \<open>description\<close> the top-level object already has: it
  becomes the trimmed text \<open>description (m1, m2, ...)\<close>; a missing description stays missing,
  and the fields elided at deeper levels are not surfaced. For the schema of scenario 3 the
  output is \<open>{type, properties: {x: {type}}, required}\<close>, without a description.
\<close>

theorem cleanJsonSchema_description:
  "fst (collectValidations obj) = topValidations obj
   \<and> (\<exists>out. cleanJsonSchema str (JObj obj) = JObj out \<and>
         map_of out (js ''description'') =
           (case map_of obj (js ''description'') of
              None \<Rightarrow> None
            | Some d \<Rightarrow>
                Some (if topValidations obj = [] then cleanObject str d (js ''.description'')
                      else JStr (trim ((if truthy d then (case d of JStr s \<Rightarrow> s | _ \<Rightarrow> str d) else [])
                             @ js '' ('' @ join (js '', '') (topValidations obj) @ js '')'')))))
   \<and> cleanJsonSchema str scenarioSchema = JObj
        [(js ''type'', JStr (js ''object'')),
         (js ''properties'', JObj [(js ''x'', JObj [(js ''type'', JStr (js ''string''))])]),
         (js ''required'', JArr [JStr (js ''x'')])]"
proof -
  have a: "fst (collectValidations obj) = topValidations obj"
    by (simp add: collectValidations_eq)
  have d1: "js ''description'' \<notin> set fieldsToRemove"
    by (simp add: fieldsToRemove_def js_inj)
  have d2: "js ''description'' \<notin> set (map fst validationFields)"
    by (simp add: validationFields_def js_inj)
  have d3: "js ''description'' \<notin> set objectPrototypeKeys"
    by (simp add: objectPrototypeKeys_def js_inj)
  have d4: "js ''description'' \<noteq> js ''required''"
    by (simp add: js_inj)
  have d5: "js ''.'' @ js ''description'' = js ''.description''"
    by (simp add: js_def)
  from cleanObject_field[OF d1 d2 d3, of str obj "[]"]
  have b: "\<exists>out. cleanJsonSchema str (JObj obj) = JObj out \<and>
         map_of out (js ''description'') =
           (case map_of obj (js ''description'') of
              None \<Rightarrow> None
            | Some d \<Rightarrow>
                Some (if topValidations obj = [] then cleanObject str d (js ''.description'')
                      else JStr (trim ((if truthy d then (case d of JStr s \<Rightarrow> s | _ \<Rightarrow> str d) else [])
                             @ js '' ('' @ join (js '', '') (topValidations obj) @ js '')''))))"
    using d4 d5 by (auto simp: cleanJsonSchema_cleanObject describeWith_def split: option.splits)
  have c: "cleanJsonSchema str scenarioSchema = JObj
        [(js ''type'', JStr (js ''object'')),
         (js ''properties'', JObj [(js ''x'', JObj [(js ''type'', JStr (js ''string''))])]),
         (js ''required'', JArr [JStr (js ''x'')])]"
    by (simp add: scenarioSchema_def clean_eval)
  from a b c show ?thesis
    by blast
qed

theorem cleanJsonSchema_description_witness:
  "(\<exists>out. cleanJsonSchema (\<lambda>v. [])
       (JObj [(js ''description'', JStr (js ''size'')), (js ''maximum'', JNum 9),
              (js ''additionalProperties'', JBool False)]) = JObj out
      \<and> map_of out (js ''description'')
          = Some (JStr (js ''size (maximum: maximum, no additional properties)'')))"
  using cleanJsonSchema_description[where str="\<lambda>v. []"
      and obj="[(js ''description'', JStr (js ''size'')), (js ''maximum'', JNum 9),
              (js ''additionalProperties'', JBool False)]"]
  by (simp add: topValidations_def validationFields_def hasKey_def js_inj trim_def isJsSpace_def js_def)

text \<open>
  The output the specification gives for scenario 3 is not what the cleaner returns.
\<close>

theorem cleanJsonSchema_scenario_no_description:
  "cleanJsonSchema (\<lambda>v. []) scenarioSchema \<noteq> JObj
        [(js ''type'', JStr (js ''object'')),
         (js ''properties'', JObj [(js ''x'', JObj [(js ''type'', JStr (js ''string''))])]),
         (js ''required'', JArr [JStr (js ''x'')]),
         (js ''description'', JStr (js ''(minLength: minLength, pattern: pattern, no additional properties)''))]"
  by (simp add: scenarioSchema_def clean_eval)

section \<open>Properties of the request adapter\<close>
















lemma crlf_block: "replaceAll matchCrLf [10] ([13, 10] @ post) = 10 # replaceAll matchCrLf [10] post"
  by (simp add: matchCrLf_def)








section \<open>Properties of the generation configuration\<close>

lemma generateRequestBody_thinking:
  "thinking (generation (request
      (generateRequestBody cfg b sigs textSigs rid openaiMessages modelName parameters openaiTools tok)))
   = \<lparr>includeThoughts =
        (((\<exists>q. modelName = q @ js ''-thinking'')
          \<or> modelName = js ''gemini-2.5-pro''
          \<or> (\<exists>r. modelName = js ''gemini-3-pro-'' @ r)
          \<or> modelName \<in> {js ''rev19-uic3-1p'', js ''gpt-oss-120b-medium''})
         \<and> \<not> ((\<exists>q r. modelName = q @ js ''claude'' @ r)
               \<and> (\<exists>msg \<in> set openaiMessages. role msg = js ''assistant'' \<and> tool_calls msg \<noteq> []))),
      thinkingBudget =
        (if ((\<exists>q. modelName = q @ js ''-thinking'')
             \<or> modelName = js ''gemini-2.5-pro''
             \<or> (\<exists>r. modelName = js ''gemini-3-pro-'' @ r)
             \<or> modelName \<in> {js ''rev19-uic3-1p'', js ''gpt-oss-120b-medium''})
            \<and> \<not> ((\<exists>q r. modelName = q @ js ''claude'' @ r)
                  \<and> (\<exists>msg \<in> set openaiMessages. role msg = js ''assistant'' \<and> tool_calls msg \<noteq> []))
         then 1024 else 0)\<rparr>"
  unfolding generateRequestBody_def generateGenerationConfig_def Let_def
  by (simp add: startsWith_iff endsWith_iff includesStr_iff list_ex_iff)

lemma imageRequest_thinking:
  "thinking (generation (request (imageRequest rb)))
     = \<lparr>includeThoughts = True, thinkingBudget = 1024\<rparr>"
  by (simp add: imageRequest_def)

text \<open>
  Claim C4, as the code has it. In the body \<open>generateRequestBody\<close> returns, thoughts are included
  exactly when the model name ends with \<open>-thinking\<close>, is \<open>gemini-2.5-pro\<close>, starts with
  \<open>gemini-3-pro-\<close> or is one of \<open>rev19-uic3-1p\<close> and \<open>gpt-oss-120b-medium\<close>, unless the
  name contains \<open>claude\<close> and some assistant message has tool calls; the budget is 1024
  when they are included and 0 otherwise. In the request the chat-completion handler sends
  upstream, thoughts are included also whenever the model name contains \<open>-image\<close>, with the
  budget 1024.
\<close>

theorem thinking_enabled:
  "thinking (generation (request
      (generateRequestBody cfg b sigs textSigs rid openaiMessages modelName parameters openaiTools tok)))
   = \<lparr>includeThoughts =
        (((\<exists>q. modelName = q @ js ''-thinking'')
          \<or> modelName = js ''gemini-2.5-pro''
          \<or> (\<exists>r. modelName = js ''gemini-3-pro-'' @ r)
          \<or> modelName \<in> {js ''rev19-uic3-1p'', js ''gpt-oss-120b-medium''})
         \<and> \<not> ((\<exists>q r. modelName = q @ js ''claude'' @ r)
               \<and> (\<exists>msg \<in> set openaiMessages. role msg = js ''assistant'' \<and> tool_calls msg \<noteq> []))),
      thinkingBudget =
        (if ((\<exists>q. modelName = q @ js ''-thinking'')
             \<or> modelName = js ''gemini-2.5-pro''
             \<or> (\<exists>r. modelName = js ''gemini-3-pro-'' @ r)
             \<or> modelName \<in> {js ''rev19-uic3-1p'', js ''gpt-oss-120b-medium''})
            \<and> \<not> ((\<exists>q r. modelName = q @ js ''claude'' @ r)
                  \<and> (\<exists>msg \<in> set openaiMessages. role msg = js ''assistant'' \<and> tool_calls msg \<noteq> []))
         then 1024 else 0)\<rparr>
   \<and> thinking (generation (request (buildRequest e rq msgs tk)))
   = \<lparr>includeThoughts =
        ((\<exists>q r. reqModel rq = q @ js ''-image'' @ r)
         \<or> ((\<exists>q. reqModel rq = q @ js ''-thinking'')
             \<or> reqModel rq = js ''gemini-2.5-pro''
             \<or> (\<exists>r. reqModel rq = js ''gemini-3-pro-'' @ r)
             \<or> reqModel rq \<in> {js ''rev19-uic3-1p'', js ''gpt-oss-120b-medium''})
            \<and> \<not> ((\<exists>q r. reqModel rq = q @ js ''claude'' @ r)
                  \<and> (\<exists>msg \<in> set msgs. role msg = js ''assistant'' \<and> tool_calls msg \<noteq> []))),
      thinkingBudget =
        (if (\<exists>q r. reqModel rq = q @ js ''-image'' @ r)
            \<or> ((\<exists>q. reqModel rq = q @ js ''-thinking'')
                \<or> reqModel rq = js ''gemini-2.5-pro''
                \<or> (\<exists>r. reqModel rq = js ''gemini-3-pro-'' @ r)
                \<or> reqModel rq \<in> {js ''rev19-uic3-1p'', js ''gpt-oss-120b-medium''})
               \<and> \<not> ((\<exists>q r. reqModel rq = q @ js ''claude'' @ r)
                     \<and> (\<exists>msg \<in> set msgs. role msg = js ''assistant'' \<and> tool_calls msg \<noteq> []))
         then 1024 else 0)\<rparr>"
proof (rule conjI)
  show "thinking (generation (request
      (generateRequestBody cfg b sigs textSigs rid openaiMessages modelName parameters openaiTools tok)))
   = \<lparr>includeThoughts =
        (((\<exists>q. modelName = q @ js ''-thinking'')
          \<or> modelName = js ''gemini-2.5-pro''
          \<or> (\<exists>r. modelName = js ''gemini-3-pro-'' @ r)
          \<or> modelName \<in> {js ''rev19-uic3-1p'', js ''gpt-oss-120b-medium''})
         \<and> \<not> ((\<exists>q r. modelName = q @ js ''claude'' @ r)
               \<and> (\<exists>msg \<in> set openaiMessages. role msg = js ''assistant'' \<and> tool_calls msg \<noteq> []))),
      thinkingBudget =
        (if ((\<exists>q. modelName = q @ js ''-thinking'')
             \<or> modelName = js ''gemini-2.5-pro''
             \<or> (\<exists>r. modelName = js ''gemini-3-pro-'' @ r)
             \<or> modelName \<in> {js ''rev19-uic3-1p'', js ''gpt-oss-120b-medium''})
            \<and> \<not> ((\<exists>q r. modelName = q @ js ''claude'' @ r)
                  \<and> (\<exists>msg \<in> set openaiMessages. role msg = js ''assistant'' \<and> tool_calls msg \<noteq> []))
         then 1024 else 0)\<rparr>"
    by (rule generateRequestBody_thinking)
next
  show "thinking (generation (request (buildRequest e rq msgs tk)))
   = \<lparr>includeThoughts =
        ((\<exists>q r. reqModel rq = q @ js ''-image'' @ r)
         \<or> ((\<exists>q. reqModel rq = q @ js ''-thinking'')
             \<or> reqModel rq = js ''gemini-2.5-pro''
             \<or> (\<exists>r. reqModel rq = js ''gemini-3-pro-'' @ r)
             \<or> reqModel rq \<in> {js ''rev19-uic3-1p'', js ''gpt-oss-120b-medium''})
            \<and> \<not> ((\<exists>q r. reqModel rq = q @ js ''claude'' @ r)
                  \<and> (\<exists>msg \<in> set msgs. role msg = js ''assistant'' \<and> tool_calls msg \<noteq> []))),
      thinkingBudget =
        (if (\<exists>q r. reqModel rq = q @ js ''-image'' @ r)
            \<or> ((\<exists>q. reqModel rq = q @ js ''-thinking'')
                \<or> reqModel rq = js ''gemini-2.5-pro''
                \<or> (\<exists>r. reqModel rq = js ''gemini-3-pro-'' @ r)
                \<or> reqModel rq \<in> {js ''rev19-uic3-1p'', js ''gpt-oss-120b-medium''})
               \<and> \<not> ((\<exists>q r. reqModel rq = q @ js ''claude'' @ r)
                     \<and> (\<exists>msg \<in> set msgs. role msg = js ''assistant'' \<and> tool_calls msg \<noteq> []))
         then 1024 else 0)\<rparr>"
  proof (cases "includesStr (reqModel rq) (js ''-image'')")
    case True
    then have "\<exists>q r. reqModel rq = q @ js ''-image'' @ r"
      by (simp add: includesStr_iff)
    with True show ?thesis
      by (simp add: buildRequest_def Let_def imageRequest_thinking)
  next
    case False
    then have "\<not> (\<exists>q r. reqModel rq = q @ js ''-image'' @ r)"
      by (simp add: includesStr_iff)
    with False show ?thesis
      by (simp add: buildRequest_def Let_def generateRequestBody_thinking)
  qed
qed

theorem thinking_enabled_witness:
  "thinking (generation (request
      (generateRequestBody
         \<lparr>default_top_p = None, default_top_k = None, default_temperature = None,
          default_max_tokens = None, systemInstructionText = []\<rparr>
         \<lparr>jsonParse = (\<lambda>s. None), jsonStringify = (\<lambda>c. []), toText = (\<lambda>v. [])\<rparr>
         Map.empty Map.empty [] [] (js ''gemini-2.5-pro'') [] []
         \<lparr>projectId = [], sessionId = []\<rparr>)))
     = \<lparr>includeThoughts = True, thinkingBudget = 1024\<rparr>
   \<and> thinking (generation (request
      (generateRequestBody
         \<lparr>default_top_p = None, default_top_k = None, default_temperature = None,
          default_max_tokens = None, systemInstructionText = []\<rparr>
         \<lparr>jsonParse = (\<lambda>s. None), jsonStringify = (\<lambda>c. []), toText = (\<lambda>v. [])\<rparr>
         Map.empty Map.empty []
         [\<lparr>role = js ''assistant'', content = ContentAbsent,
           tool_calls = [\<lparr>callId = js ''c1'', callType = js ''function'',
                           functionName = js ''f'', functionArguments = ArgOther\<rparr>],
           tool_call_id = []\<rparr>]
         (js ''claude-opus-4-5-thinking'') [] []
         \<lparr>projectId = [], sessionId = []\<rparr>)))
     = \<lparr>includeThoughts = False, thinkingBudget = 0\<rparr>
   \<and> thinking (generation (request
        (buildRequest (scenarioEnv [] (Inr None) (Inr ([], [], None)))
           (scenarioRequest (js ''gemini-3-pro-image'') True) []
           \<lparr>projectId = js ''p1'', sessionId = js ''s1''\<rparr>)))
     = \<lparr>includeThoughts = True, thinkingBudget = 1024\<rparr>
   \<and> thinking (generation (request
        (buildRequest (scenarioEnv [] (Inr None) (Inr ([], [], None)))
           (scenarioRequest (js ''gemini-2.5-flash'') True) []
           \<lparr>projectId = js ''p1'', sessionId = js ''s1''\<rparr>)))
     = \<lparr>includeThoughts = False, thinkingBudget = 0\<rparr>"
proof -
  have c: "\<exists>q r. js ''claude-opus-4-5-thinking'' = q @ js ''claude'' @ r"
    unfolding includesStr_iff[symmetric] by (simp add: startsWith_def js_def)
  have n: "\<not> (\<exists>q r. js ''gemini-2.5-pro'' = q @ js ''claude'' @ r)"
    unfolding includesStr_iff[symmetric] by (simp add: startsWith_def js_def)
  have i: "\<exists>q r. js ''gemini-3-pro-image'' = q @ js ''-image'' @ r"
    unfolding includesStr_iff[symmetric] by (simp add: startsWith_def js_def)
  have f: "\<not> (\<exists>q r. js ''gemini-2.5-flash'' = q @ js ''-image'' @ r)"
    "\<not> (\<exists>q. js ''gemini-2.5-flash'' = q @ js ''-thinking'')"
    "\<not> (\<exists>r. js ''gemini-2.5-flash'' = js ''gemini-3-pro-'' @ r)"
    unfolding includesStr_iff[symmetric] endsWith_iff[symmetric] startsWith_iff[symmetric]
    by (simp_all add: startsWith_def endsWith_def js_def)
  note th = thinking_enabled[THEN conjunct1] thinking_enabled[THEN conjunct2]
  show ?thesis
    unfolding th using c n i f by (simp add: js_inj scenarioRequest_def)
qed

text \<open>
  The request the chat-completion handler sends for \<open>gemini-2.5-flash-image\<close> includes
  thoughts with the budget 1024, though the name meets none of the conditions, and the body
  \<open>generateRequestBody\<close> returned for it does not.
\<close>

theorem image_model_thinking:
  "thinking (generation (request
        (buildRequest (scenarioEnv [] (Inr None) (Inr ([], [], None)))
           (scenarioRequest (js ''gemini-2.5-flash-image'') True)
           [\<lparr>role = js ''user'', content = ContentString (js ''ping''),
             tool_calls = [], tool_call_id = []\<rparr>]
           \<lparr>projectId = js ''p1'', sessionId = js ''s1''\<rparr>)))
     = \<lparr>includeThoughts = True, thinkingBudget = 1024\<rparr>
   \<and> \<not> endsWith (js ''gemini-2.5-flash-image'') (js ''-thinking'')
   \<and> js ''gemini-2.5-flash-image'' \<noteq> js ''gemini-2.5-pro''
   \<and> \<not> startsWith (js ''gemini-2.5-flash-image'') (js ''gemini-3-pro-'')
   \<and> js ''gemini-2.5-flash-image'' \<notin> {js ''rev19-uic3-1p'', js ''gpt-oss-120b-medium''}
   \<and> thinking (generation (request
        (generateRequestBody
           (envConfig (scenarioEnv [] (Inr None) (Inr ([], [], None))))
           (envBuiltins (scenarioEnv [] (Inr None) (Inr ([], [], None))))
           Map.empty Map.empty (js ''req-1'')
           [\<lparr>role = js ''user'', content = ContentString (js ''ping''),
             tool_calls = [], tool_call_id = []\<rparr>]
           (js ''gemini-2.5-flash-image'') [] []
           \<lparr>projectId = js ''p1'', sessionId = js ''s1''\<rparr>)))
     = \<lparr>includeThoughts = False, thinkingBudget = 0\<rparr>"
proof -
  have i: "includesStr (js ''gemini-2.5-flash-image'') (js ''-image'')"
    by (simp add: startsWith_def js_def)
  have a: "thinking (generation (request
        (buildRequest (scenarioEnv [] (Inr None) (Inr ([], [], None)))
           (scenarioRequest (js ''gemini-2.5-flash-image'') True)
           [\<lparr>role = js ''user'', content = ContentString (js ''ping''),
             tool_calls = [], tool_call_id = []\<rparr>]
           \<lparr>projectId = js ''p1'', sessionId = js ''s1''\<rparr>)))
     = \<lparr>includeThoughts = True, thinkingBudget = 1024\<rparr>"
    using i by (simp add: buildRequest_def Let_def scenarioRequest_def imageRequest_thinking)
  have e: "\<not> endsWith (js ''gemini-2.5-flash-image'') (js ''-thinking'')"
    and s: "\<not> startsWith (js ''gemini-2.5-flash-image'') (js ''gemini-3-pro-'')"
    by (simp_all add: endsWith_def startsWith_def js_def)
  have n: "js ''gemini-2.5-flash-image'' \<noteq> js ''gemini-2.5-pro''"
    "js ''gemini-2.5-flash-image'' \<notin> {js ''rev19-uic3-1p'', js ''gpt-oss-120b-medium''}"
    by (simp_all add: js_inj)
  have g: "thinking (generation (request
        (generateRequestBody
           (envConfig (scenarioEnv [] (Inr None) (Inr ([], [], None))))
           (envBuiltins (scenarioEnv [] (Inr None) (Inr ([], [], None))))
           Map.empty Map.empty (js ''req-1'')
           [\<lparr>role = js ''user'', content = ContentString (js ''ping''),
             tool_calls = [], tool_call_id = []\<rparr>]
           (js ''gemini-2.5-flash-image'') [] []
           \<lparr>projectId = js ''p1'', sessionId = js ''s1''\<rparr>)))
     = \<lparr>includeThoughts = False, thinkingBudget = 0\<rparr>"
    unfolding generateRequestBody_thinking
    using e s n by (simp add: endsWith_iff startsWith_iff)
  from a e n s g show ?thesis
    by simp
qed

section \<open>Properties of the API-key gate\<close>

lemma isProtectedApiPath_direct: "isProtectedApiPath (js ''/v1/'' @ rest)"
  by (simp add: isProtectedApiPath_def js_def startsWith_def)

lemma isProtectedApiPath_segment:
  assumes "seg \<noteq> []" "\<forall>c \<in> set seg. isWordOrHyphen c"
  shows "isProtectedApiPath (js ''/'' @ seg @ js ''/v1/'' @ rest)"
proof -
  have nw: "\<not> isWordOrHyphen 47"
    by (simp add: isWordOrHyphen_def)
  have tw: "takeWhile isWordOrHyphen (seg @ js ''/v1/'' @ rest) = seg"
    using assms nw by (simp add: takeWhile_append2 js_def takeWhile_tail)
  have dw: "dropWhile isWordOrHyphen (seg @ js ''/v1/'' @ rest) = js ''/v1/'' @ rest"
    using assms nw by (simp add: dropWhile_append2 js_def)
  have j: "js ''/'' = [47]"
    by (simp add: js_def)
  show ?thesis
    using assms(1) by (simp add: isProtectedApiPath_def j tw dw startsWith_append)
qed

lemma isProtectedApiPath_iff:
  "isProtectedApiPath p \<longleftrightarrow>
     (\<exists>rest. p = js ''/v1/'' @ rest)
     \<or> (\<exists>seg rest. seg \<noteq> [] \<and> (\<forall>c \<in> set seg. isWordOrHyphen c) \<and> p = js ''/'' @ seg @ js ''/v1/'' @ rest)"
proof
  assume "isProtectedApiPath p"
  then obtain r where p: "p = 47 # r" and
    d: "startsWith r (js ''v1/'') \<or> (takeWhile isWordOrHyphen r \<noteq> []
               \<and> startsWith (dropWhile isWordOrHyphen r) (js ''/v1/''))"
    by (auto simp: isProtectedApiPath_def split: list.splits)
  have sw: "startsWith s q \<Longrightarrow> s = q @ drop (length q) s" for s q
    by (metis append_take_drop_id startsWith_def)
  from d show "(\<exists>rest. p = js ''/v1/'' @ rest)
     \<or> (\<exists>seg rest. seg \<noteq> [] \<and> (\<forall>c \<in> set seg. isWordOrHyphen c) \<and> p = js ''/'' @ seg @ js ''/v1/'' @ rest)"
  proof
    assume "startsWith r (js ''v1/'')"
    from sw[OF this] have "47 # r = js ''/v1/'' @ drop (length (js ''v1/'')) r"
      by (simp add: js_def)
    with p have "p = js ''/v1/'' @ drop (length (js ''v1/'')) r"
      by simp
    then show ?thesis by blast
  next
    assume a: "takeWhile isWordOrHyphen r \<noteq> []
               \<and> startsWith (dropWhile isWordOrHyphen r) (js ''/v1/'')"
    let ?seg = "takeWhile isWordOrHyphen r"
    let ?rest = "drop (length (js ''/v1/'')) (dropWhile isWordOrHyphen r)"
    from a sw have "dropWhile isWordOrHyphen r = js ''/v1/'' @ ?rest"
      by blast
    then have "r = ?seg @ js ''/v1/'' @ ?rest"
      by (metis takeWhile_dropWhile_id)
    then have "47 # r = js ''/'' @ ?seg @ js ''/v1/'' @ ?rest"
      by (simp add: js_def)
    with p have "p = js ''/'' @ ?seg @ js ''/v1/'' @ ?rest"
      by simp
    moreover have "\<forall>c \<in> set ?seg. isWordOrHyphen c"
      by (auto dest: set_takeWhileD)
    ultimately show ?thesis
      using a by blast
  qed
next
  assume "(\<exists>rest. p = js ''/v1/'' @ rest)
     \<or> (\<exists>seg rest. seg \<noteq> [] \<and> (\<forall>c \<in> set seg. isWordOrHyphen c) \<and> p = js ''/'' @ seg @ js ''/v1/'' @ rest)"
  then show "isProtectedApiPath p"
    using isProtectedApiPath_direct isProtectedApiPath_segment by blast
qed


lemma apiKeyGate_cases:
  assumes "isProtectedApiPath pathname"
  shows "apiKeyGate apiKey pathname hs =
     (if apiKey = None \<or> apiKey = Some []
        then Reject 503 (JObj [(js ''error'', JStr (js ''API Key '' @ [26410, 37197, 32622]))])
      else if extractApiKeyFromHeaders hs \<noteq> apiKey
        then Reject 401 (JObj [(js ''error'', JStr (js ''Invalid API Key''))])
      else Next)"
  using assms by (auto simp: apiKeyGate_def validateApiKey_def Let_def)

lemma extract_bearer:
  "hs (js ''authorization'') = Some (js ''Bearer '' @ k) \<Longrightarrow> extractApiKeyFromHeaders hs = Some k"
  by (simp add: extractApiKeyFromHeaders_def startsWith_def) (simp add: js_def)

lemma extract_bare:
  "hs (js ''authorization'') = Some a \<Longrightarrow> a \<noteq> [] \<Longrightarrow> \<not> startsWith a (js ''Bearer '')
    \<Longrightarrow> extractApiKeyFromHeaders hs = Some a"
  by (simp add: extractApiKeyFromHeaders_def)

lemma find_map_filter_single:
  assumes "h \<in> set cs" "hs h = Some v" "v \<noteq> []"
    "\<forall>h' \<in> set cs. h' \<noteq> h \<longrightarrow> hs h' = None \<or> hs h' = Some []"
  shows "List.find (\<lambda>v. v \<noteq> []) (List.map_filter hs cs) = Some v"
  using assms
proof (induction cs)
  case Nil
  then show ?case by simp
next
  case (Cons c cs)
  show ?case
  proof (cases "c = h")
    case True
    with Cons.prems show ?thesis
      by (simp add: map_filter_simps)
  next
    case False
    with Cons.prems have "h \<in> set cs" and "hs c = None \<or> hs c = Some []"
      by auto
    with Cons show ?thesis
      by (auto simp: map_filter_simps)
  qed
qed

lemma extract_candidate:
  assumes "hs (js ''authorization'') = None" "h \<in> set candidateHeaders" "hs h = Some v" "v \<noteq> []"
    "\<forall>h' \<in> set candidateHeaders. h' \<noteq> h \<longrightarrow> hs h' = None \<or> hs h' = Some []"
  shows "extractApiKeyFromHeaders hs = Some v"
  using assms find_map_filter_single[of h candidateHeaders hs v]
  by (simp add: extractApiKeyFromHeaders_def firstCandidate_def)

text \<open>
  Claim C5. On a path that matches \<open>^/(?:[\w-]+/)?v1/\<close> the gate checks the key: with no
  key configured it answers 503; with a key configured and a provided key that differs from
  it (or none) it answers 401, and it lets the request through when they agree. The provided
  key is the rest of \<open>Authorization: Bearer ...\<close>, a bare \<open>Authorization\<close> value, or,
  without an \<open>Authorization\<close> header, the value of \<open>x-api-key\<close>, \<open>api-key\<close>,
  \<open>x-api_key\<close> or \<open>api_key\<close>.
\<close>

theorem apiKeyGate_protected:
  assumes "(\<exists>rest. pathname = js ''/v1/'' @ rest)
     \<or> (\<exists>seg rest. seg \<noteq> [] \<and> (\<forall>c \<in> set seg. isWordOrHyphen c)
           \<and> pathname = js ''/'' @ seg @ js ''/v1/'' @ rest)"
  shows
    "(apiKey = None \<or> apiKey = Some [] \<longrightarrow>
        apiKeyGate apiKey pathname hs
          = Reject 503 (JObj [(js ''error'', JStr (js ''API Key '' @ [26410, 37197, 32622]))]))
     \<and> (apiKey = Some key \<and> key \<noteq> [] \<and> extractApiKeyFromHeaders hs \<noteq> Some key \<longrightarrow>
        apiKeyGate apiKey pathname hs
          = Reject 401 (JObj [(js ''error'', JStr (js ''Invalid API Key''))]))
     \<and> (apiKey = Some key \<and> key \<noteq> [] \<and> extractApiKeyFromHeaders hs = Some key \<longrightarrow>
        apiKeyGate apiKey pathname hs = Next)
     \<and> (hs (js ''authorization'') = Some (js ''Bearer '' @ k) \<longrightarrow>
        extractApiKeyFromHeaders hs = Some k)
     \<and> (hs (js ''authorization'') = Some a \<and> a \<noteq> [] \<and> \<not> startsWith a (js ''Bearer '') \<longrightarrow>
        extractApiKeyFromHeaders hs = Some a)
     \<and> (hs (js ''authorization'') = None \<and> h \<in> set candidateHeaders \<and> hs h = Some v \<and> v \<noteq> []
        \<and> (\<forall>h' \<in> set candidateHeaders. h' \<noteq> h \<longrightarrow> hs h' = None \<or> hs h' = Some []) \<longrightarrow>
        extractApiKeyFromHeaders hs = Some v)"
proof -
  from assms have prot: "isProtectedApiPath pathname"
    by (simp add: isProtectedApiPath_iff)
  show ?thesis
    using apiKeyGate_cases[OF prot, of apiKey hs] extract_bearer[of hs k] extract_bare[of hs a]
      extract_candidate[of hs h v]
    by (simp only: simp_thms) auto
qed

theorem apiKeyGate_protected_witness:
  "apiKeyGate None (js ''/v1/models'') Map.empty
      = Reject 503 (JObj [(js ''error'', JStr (js ''API Key '' @ [26410, 37197, 32622]))])
   \<and> apiKeyGate (Some (js ''k1'')) (js ''/v1/models'') [js ''x-api-key'' \<mapsto> js ''zz'']
      = Reject 401 (JObj [(js ''error'', JStr (js ''Invalid API Key''))])
   \<and> apiKeyGate (Some (js ''k1'')) (js ''/v1/models'') [js ''authorization'' \<mapsto> js ''Bearer k1'']
      = Next
   \<and> apiKeyGate (Some (js ''k1'')) (js ''/v1/models'') [js ''authorization'' \<mapsto> js ''k1''] = Next
   \<and> apiKeyGate (Some (js ''k1'')) (js ''/v1/models'') [js ''api_key'' \<mapsto> js ''k1''] = Next"
proof -
  have p: "(\<exists>rest. js ''/v1/models'' = js ''/v1/'' @ rest)
     \<or> (\<exists>seg rest. seg \<noteq> [] \<and> (\<forall>c \<in> set seg. isWordOrHyphen c)
           \<and> js ''/v1/models'' = js ''/'' @ seg @ js ''/v1/'' @ rest)"
    by (simp add: js_def)
  note t = apiKeyGate_protected[OF p]
  note no_key = t[THEN conjunct1, rule_format]
  note mismatch = t[THEN conjunct2, THEN conjunct1, rule_format]
  note match = t[THEN conjunct2, THEN conjunct2, THEN conjunct1, rule_format]
  note bearer = t[THEN conjunct2, THEN conjunct2, THEN conjunct2, THEN conjunct1, rule_format]
  note bare = t[THEN conjunct2, THEN conjunct2, THEN conjunct2, THEN conjunct2, THEN conjunct1,
      rule_format]
  note other = t[THEN conjunct2, THEN conjunct2, THEN conjunct2, THEN conjunct2, THEN conjunct2,
      rule_format]
  have k: "js ''k1'' \<noteq> []"
    by (simp add: js_def)
  have e1: "extractApiKeyFromHeaders [js ''x-api-key'' \<mapsto> js ''zz''] = Some (js ''zz'')"
    by (rule other[where h="js ''x-api-key''"])
       (simp_all add: candidateHeaders_def js_inj, simp add: js_def)
  have e2: "extractApiKeyFromHeaders [js ''authorization'' \<mapsto> js ''Bearer k1''] = Some (js ''k1'')"
    by (rule bearer) (simp add: js_def)
  have e3: "extractApiKeyFromHeaders [js ''authorization'' \<mapsto> js ''k1''] = Some (js ''k1'')"
    by (rule bare) (simp_all add: startsWith_def js_def)
  have e4: "extractApiKeyFromHeaders [js ''api_key'' \<mapsto> js ''k1''] = Some (js ''k1'')"
    by (rule other[where h="js ''api_key''"])
       (simp_all add: candidateHeaders_def js_inj, simp add: js_def)
  have c1: "apiKeyGate None (js ''/v1/models'') Map.empty
      = Reject 503 (JObj [(js ''error'', JStr (js ''API Key '' @ [26410, 37197, 32622]))])"
    by (rule no_key) simp
  have c2: "apiKeyGate (Some (js ''k1'')) (js ''/v1/models'') [js ''x-api-key'' \<mapsto> js ''zz'']
      = Reject 401 (JObj [(js ''error'', JStr (js ''Invalid API Key''))])"
    by (rule mismatch[where key="js ''k1''"]) (simp add: e1 k js_inj)
  have c3: "apiKeyGate (Some (js ''k1'')) (js ''/v1/models'') [js ''authorization'' \<mapsto> js ''Bearer k1'']
      = Next"
    by (rule match[where key="js ''k1''"]) (simp add: e2 k)
  have c4: "apiKeyGate (Some (js ''k1'')) (js ''/v1/models'') [js ''authorization'' \<mapsto> js ''k1''] = Next"
    by (rule match[where key="js ''k1''"]) (simp add: e3 k)
  have c5: "apiKeyGate (Some (js ''k1'')) (js ''/v1/models'') [js ''api_key'' \<mapsto> js ''k1''] = Next"
    by (rule match[where key="js ''k1''"]) (simp add: e4 k)
  from c1 c2 c3 c4 c5 show ?thesis
    by (intro conjI)
qed

text \<open>
  Claim C10, as the code has it. When the request carries a non-empty \<open>Authorization\<close>
  header, the provided key is that value, without a leading \<open>Bearer \<close>, whatever the other
  headers hold: on a protected path a value that differs from the configured key is answered
  with 401.
\<close>

theorem authorization_precedence:
  assumes "hs (js ''authorization'') = Some a" and "a \<noteq> []"
  shows "extractApiKeyFromHeaders hs
           = Some (if startsWith a (js ''Bearer '') then drop 7 a else a)
     \<and> (isProtectedApiPath pathname \<and> apiKey = Some key \<and> key \<noteq> []
          \<and> (if startsWith a (js ''Bearer '') then drop 7 a else a) \<noteq> key \<longrightarrow>
        apiKeyGate apiKey pathname hs
          = Reject 401 (JObj [(js ''error'', JStr (js ''Invalid API Key''))]))
     \<and> (isProtectedApiPath pathname \<and> apiKey = Some key \<and> key \<noteq> []
          \<and> (if startsWith a (js ''Bearer '') then drop 7 a else a) = key \<longrightarrow>
        apiKeyGate apiKey pathname hs = Next)"
proof -
  have e: "extractApiKeyFromHeaders hs
           = Some (if startsWith a (js ''Bearer '') then drop 7 a else a)"
    using assms by (simp add: extractApiKeyFromHeaders_def)
  show ?thesis
    using e apiKeyGate_cases[of pathname apiKey hs] by auto
qed

theorem authorization_precedence_witness:
  "apiKeyGate (Some (js ''secret'')) (js ''/v1/models'')
      [js ''authorization'' \<mapsto> js ''Bearer wrong'', js ''x-api-key'' \<mapsto> js ''secret'']
     = Reject 401 (JObj [(js ''error'', JStr (js ''Invalid API Key''))])
   \<and> apiKeyGate (Some (js ''secret'')) (js ''/v1/models'')
      [js ''authorization'' \<mapsto> js ''secret'', js ''x-api-key'' \<mapsto> js ''other''] = Next"
proof -
  have p: "isProtectedApiPath (js ''/v1/models'')"
    by (simp add: isProtectedApiPath_def startsWith_def js_def)
  have k: "js ''secret'' \<noteq> []" "js ''Bearer wrong'' \<noteq> []"
    by (simp_all add: js_def)
  have a1: "[js ''authorization'' \<mapsto> js ''Bearer wrong'', js ''x-api-key'' \<mapsto> js ''secret'']
      (js ''authorization'') = Some (js ''Bearer wrong'')"
    by (simp add: js_inj)
  have a2: "[js ''authorization'' \<mapsto> js ''secret'', js ''x-api-key'' \<mapsto> js ''other'']
      (js ''authorization'') = Some (js ''secret'')"
    by (simp add: js_inj)
  have s1: "(if startsWith (js ''Bearer wrong'') (js ''Bearer '') then drop 7 (js ''Bearer wrong'')
       else js ''Bearer wrong'') \<noteq> js ''secret''"
    by (simp add: startsWith_def js_def)
  have s2: "(if startsWith (js ''secret'') (js ''Bearer '') then drop 7 (js ''secret'')
       else js ''secret'') = js ''secret''"
    by (simp add: startsWith_def js_def)
  show ?thesis
    using authorization_precedence[where pathname="js ''/v1/models''"
        and apiKey="Some (js ''secret'')" and key="js ''secret''" and a="js ''Bearer wrong''"
        and hs="[js ''authorization'' \<mapsto> js ''Bearer wrong'', js ''x-api-key'' \<mapsto> js ''secret'']"]
      authorization_precedence[where pathname="js ''/v1/models''"
        and apiKey="Some (js ''secret'')" and key="js ''secret''" and a="js ''secret''"
        and hs="[js ''authorization'' \<mapsto> js ''secret'', js ''x-api-key'' \<mapsto> js ''other'']"]
      p k s1 s2 a1 a2
    by simp
qed

text \<open>
  With an empty \<open>Authorization\<close> header the alternative headers are consulted: the request
  below carries an \<open>Authorization\<close> header and is let through on its \<open>x-api-key\<close>.
\<close>

theorem empty_authorization_falls_through:
  "apiKeyGate (Some (js ''secret'')) (js ''/v1/models'')
      [js ''authorization'' \<mapsto> [], js ''x-api-key'' \<mapsto> js ''secret''] = Next"
  by (simp add: apiKeyGate_def validateApiKey_def extractApiKeyFromHeaders_def firstCandidate_def
      candidateHeaders_def map_filter_simps isProtectedApiPath_def startsWith_def js_inj)
     (simp add: js_def)

section \<open>Properties of the chat-completion handler\<close>

lemma thinkOpen_head: "thinkOpen = 60 # [24605, 32771, 62]"
  by (simp add: thinkOpen_def)

lemma thinkClose_head: "thinkClose = 60 # [47, 24605, 32771, 62]"
  by (simp add: thinkClose_def)

lemma replaceAll_no_open:
  assumes "60 \<notin> set pre"
  shows "replaceAll (matchDelimited thinkOpen thinkClose) [] (pre @ s)
           = pre @ replaceAll (matchDelimited thinkOpen thinkClose) [] s"
  using assms
proof (induction pre)
  case Nil
  then show ?case by simp
next
  case (Cons c pre)
  then have "c \<noteq> 60"
    by auto
  then have "matchDelimited thinkOpen thinkClose (c # pre @ s) = None"
    by (simp add: matchDelimited_def startsWith_def thinkOpen_head)
  with Cons show ?case
    by simp
qed

lemma afterFirst_close:
  assumes "60 \<notin> set inner"
  shows "afterFirst thinkClose (inner @ thinkClose @ post) = Some post"
  using assms
proof (induction inner)
  case Nil
  show ?case
    by (simp add: thinkClose_head startsWith_def)
next
  case (Cons c inner)
  then have "c \<noteq> 60"
    by auto
  then have "\<not> startsWith (c # inner @ thinkClose @ post) thinkClose"
    by (simp add: startsWith_def thinkClose_head)
  with Cons show ?case
    by simp
qed

lemma stripThinkBlocks_span:
  assumes "60 \<notin> set pre" and "60 \<notin> set inner"
  shows "stripThinkBlocks (pre @ thinkOpen @ inner @ thinkClose @ post) = pre @ stripThinkBlocks post"
proof -
  have m: "matchDelimited thinkOpen thinkClose (thinkOpen @ inner @ thinkClose @ post) = Some post"
    using afterFirst_close[OF assms(2)] by (simp add: matchDelimited_def startsWith_append)
  have "replaceAll (matchDelimited thinkOpen thinkClose) [] (thinkOpen @ inner @ thinkClose @ post)
      = replaceAll (matchDelimited thinkOpen thinkClose) [] post"
  proof -
    obtain cs where cs: "thinkOpen @ inner @ thinkClose @ post = 60 # cs"
      and len: "length post \<le> length cs"
      by (simp add: thinkOpen_head)
    show ?thesis
      using m len unfolding cs by simp
  qed
  then show ?thesis
    unfolding stripThinkBlocks_def using replaceAll_no_open[OF assms(1)] by simp
qed

lemma stripThinkBlocks_plain:
  assumes "60 \<notin> set s"
  shows "stripThinkBlocks s = s"
  using replaceAll_no_open[OF assms, of "[]"] by (simp add: stripThinkBlocks_def)

lemma text_not_thinking: "js ''text'' \<noteq> js ''thinking''" "js ''text'' \<noteq> js ''tool_calls''"
  "js ''thinking'' \<noteq> js ''tool_calls''"
  by (simp_all add: js_inj)

text \<open>
  Claim C6, as the code has it. For a \<open>text\<close> event of a stream that is not an image stream
  the delta is the content with every marked span removed, and no chunk is written when
  nothing is left; a span opens at a marker and closes at the first closing marker behind it.
  The text inside the markers is dropped: a delta with \<open>reasoning_content\<close> comes from a
  \<open>thinking\<close> event only.
\<close>

theorem text_event_content:
  "(evType data = js ''text'' \<longrightarrow>
      eventDelta data =
        (if stripThinkBlocks (evContent data) = [] then NoDelta
         else ContentDelta (stripThinkBlocks (evContent data)))
      \<and> onStreamEvent ident created mdl data (hasToolCall, res) =
          (hasToolCall,
           if stripThinkBlocks (evContent data) = [] then res
           else resWrite (Data (createStreamChunk ident created mdl
                  (ContentDelta (stripThinkBlocks (evContent data))) None None)) res))
   \<and> (60 \<notin> set pre \<and> 60 \<notin> set inner \<longrightarrow>
        stripThinkBlocks (pre @ thinkOpen @ inner @ thinkClose @ post) = pre @ stripThinkBlocks post)
   \<and> (60 \<notin> set s \<longrightarrow> stripThinkBlocks s = s)
   \<and> (eventDelta data = ReasoningDelta r \<longrightarrow>
        evType data = js ''thinking'' \<and> r = stripThinkingTags (evContent data))"
proof -
  have a: "evType data = js ''text'' \<Longrightarrow>
      eventDelta data =
        (if stripThinkBlocks (evContent data) = [] then NoDelta
         else ContentDelta (stripThinkBlocks (evContent data)))"
    using text_not_thinking by (simp add: eventDelta_def Let_def)
  have b: "evType data = js ''text'' \<Longrightarrow>
      onStreamEvent ident created mdl data (hasToolCall, res) =
          (hasToolCall,
           if stripThinkBlocks (evContent data) = [] then res
           else resWrite (Data (createStreamChunk ident created mdl
                  (ContentDelta (stripThinkBlocks (evContent data))) None None)) res)"
    using a text_not_thinking by (simp add: onStreamEvent_def Let_def writeStreamData_def)
  have c: "eventDelta data = ReasoningDelta r \<Longrightarrow>
        evType data = js ''thinking'' \<and> r = stripThinkingTags (evContent data)"
    by (auto simp: eventDelta_def Let_def split: if_splits)
  from a b c stripThinkBlocks_span[of pre inner post] stripThinkBlocks_plain[of s]
  show ?thesis
    by blast
qed

theorem text_event_content_witness:
  "onStreamEvent (js ''id'') 7 (js ''m'')
      \<lparr>evType = js ''text'', evContent = js ''ab'' @ thinkOpen @ js ''cd'' @ thinkClose @ js ''ef'',
       evToolCalls = None, evUrl = []\<rparr> (False, freshResponse)
     = (False, resWrite (Data (createStreamChunk (js ''id'') 7 (js ''m'')
                  (ContentDelta (js ''abef'')) None None)) freshResponse)"
proof -
  have s1: "stripThinkBlocks (js ''ab'' @ thinkOpen @ js ''cd'' @ thinkClose @ js ''ef'')
      = js ''ab'' @ stripThinkBlocks (js ''ef'')"
    by (rule text_event_content[THEN conjunct2, THEN conjunct1, rule_format]) (simp add: js_def)
  have s2: "stripThinkBlocks (js ''ef'') = js ''ef''"
    by (rule text_event_content[THEN conjunct2, THEN conjunct2, THEN conjunct1, rule_format])
       (simp add: js_def)
  have s: "stripThinkBlocks (js ''ab'' @ thinkOpen @ js ''cd'' @ thinkClose @ js ''ef'') = js ''abef''"
    unfolding s1 s2 by (simp add: js_def)
  show ?thesis
    using text_event_content[THEN conjunct1, rule_format,
        where data="\<lparr>evType = js ''text'', evContent = js ''ab'' @ thinkOpen @ js ''cd'' @ thinkClose @ js ''ef'',
       evToolCalls = None, evUrl = []\<rparr>" and ident="js ''id''" and created=7 and mdl="js ''m''"
        and hasToolCall=False and res=freshResponse] s
    by (simp add: js_def)
qed

text \<open>
  A text event with a marked span: the client receives the text behind the span and no
  \<open>reasoning_content\<close>. In an image stream the markers are not even stripped.
\<close>

theorem text_event_inner_text_dropped:
  "written (snd (onStreamEvent (js ''id'') 7 (js ''m'')
      \<lparr>evType = js ''text'', evContent = thinkOpen @ js ''A'' @ thinkClose @ js ''B'',
       evToolCalls = None, evUrl = []\<rparr> (False, freshResponse)))
     = [Data (createStreamChunk (js ''id'') 7 (js ''m'') (ContentDelta (js ''B'')) None None)]
   \<and> \<not> list_ex isReasoningChunk
        [Data (createStreamChunk (js ''id'') 7 (js ''m'') (ContentDelta (js ''B'')) None None)]
   \<and> written (snd (onImageEvent (js ''id'') 7 (js ''m-image'')
      \<lparr>evType = js ''text'', evContent = thinkOpen @ js ''A'' @ thinkClose @ js ''B'',
       evToolCalls = None, evUrl = []\<rparr> ([], freshResponse)))
     = [Data (createStreamChunk (js ''id'') 7 (js ''m-image'')
          (ContentDelta (thinkOpen @ js ''A'' @ thinkClose @ js ''B'')) None None)]"
  by (simp add: onStreamEvent_def eventDelta_def stripThinkBlocks_def matchDelimited_def
      onImageEvent_def writeStreamData_def resWrite_def freshResponse_def createStreamChunk_def
      thinkOpen_def thinkClose_def startsWith_def js_def Let_def)

lemma eventDelta_toolcalls:
  "(\<exists>cs. eventDelta ev = ToolCallsDelta cs) \<longleftrightarrow> evType ev = js ''tool_calls''"
  by (auto simp: eventDelta_def Let_def split: if_splits)

lemma fold_onStreamEvent:
  "fold (onStreamEvent ident created mdl) events (b, res) =
     (b \<or> (\<exists>ev \<in> set events. evType ev = js ''tool_calls''),
      res\<lparr>headersSent := headersSent res \<or> streamChunks ident created mdl events \<noteq> [],
          written := written res @ streamChunks ident created mdl events\<rparr>)"
proof (induction events arbitrary: b res)
  case Nil
  then show ?case
    by (simp add: streamChunks_def)
next
  case (Cons ev events)
  have tc: "evType ev = js ''tool_calls'' \<Longrightarrow> eventDelta ev \<noteq> NoDelta"
    using eventDelta_toolcalls[of ev] by auto
  show ?case
  proof (cases "eventDelta ev = NoDelta")
    case True
    then have "evType ev \<noteq> js ''tool_calls''"
      using tc by blast
    with True Cons.IH[of b res] show ?thesis
      by (simp add: onStreamEvent_def Let_def streamChunks_def)
  next
    case False
    then show ?thesis
      using Cons.IH[of "b \<or> evType ev = js ''tool_calls''"
          "writeStreamData (createStreamChunk ident created mdl (eventDelta ev) None None) res"]
      by (auto simp: onStreamEvent_def Let_def streamChunks_def writeStreamData_def resWrite_def)
  qed
qed

lemma streamChunks_toolcall:
  "list_ex isToolCallChunk (streamChunks ident created mdl events)
     \<longleftrightarrow> (\<exists>ev \<in> set events. evType ev = js ''tool_calls'')"
proof (induction events)
  case Nil
  then show ?case by (simp add: streamChunks_def)
next
  case (Cons ev events)
  have "isToolCallChunk (Data (createStreamChunk ident created mdl (eventDelta ev) None None))
      \<longleftrightarrow> evType ev = js ''tool_calls''"
    using eventDelta_toolcalls[of ev]
    by (auto simp: createStreamChunk_def split: delta.splits)
  moreover have "evType ev = js ''tool_calls'' \<Longrightarrow> eventDelta ev \<noteq> NoDelta"
    using eventDelta_toolcalls[of ev] by auto
  ultimately show ?case
    using Cons by (auto simp: streamChunks_def)
qed

lemma fold_onImageEvent:
  "\<exists>urls. fold (onImageEvent ident created mdl) events (us, res) =
     (urls,
      res\<lparr>headersSent := headersSent res \<or> imageChunks ident created mdl events \<noteq> [],
          written := written res @ imageChunks ident created mdl events\<rparr>)"
proof (induction events arbitrary: us res)
  case Nil
  then show ?case
    by (simp add: imageChunks_def)
next
  case (Cons ev events)
  obtain us' res' where step: "onImageEvent ident created mdl ev (us, res) = (us', res')"
    by (cases "onImageEvent ident created mdl ev (us, res)")
  from Cons.IH[of us' res'] obtain urls where
    ih: "fold (onImageEvent ident created mdl) events (us', res') =
     (urls,
      res'\<lparr>headersSent := headersSent res' \<or> imageChunks ident created mdl events \<noteq> [],
          written := written res' @ imageChunks ident created mdl events\<rparr>)"
    by blast
  have "res'\<lparr>headersSent := headersSent res' \<or> imageChunks ident created mdl events \<noteq> [],
          written := written res' @ imageChunks ident created mdl events\<rparr>
     = res\<lparr>headersSent := headersSent res \<or> imageChunks ident created mdl (ev # events) \<noteq> [],
          written := written res @ imageChunks ident created mdl (ev # events)\<rparr>"
    using step
    by (auto simp: onImageEvent_def imageChunks_def writeStreamData_def resWrite_def
        split: if_splits)
  with ih step show ?case
    by auto
qed

lemma imageChunks_no_toolcall:
  "\<not> list_ex isToolCallChunk (imageChunks ident created mdl events)"
  by (induction events) (auto simp: imageChunks_def createStreamChunk_def)

lemma onError_cases:
  "fst (onError e rq err (res, logs)) =
     (if headersSent res then res
      else if reqStream rq then
        (setStreamHeaders res)
          \<lparr>headersSent := True,
           written := written res @
             [Data (createStreamChunk (fst (envErrorMeta e)) (snd (envErrorMeta e))
                      (modelOrUnknown (reqModel rq)) (ContentDelta (errorPrefix @ errMessage err))
                      None None),
              Data (createStreamChunk (fst (envErrorMeta e)) (snd (envErrorMeta e))
                      (modelOrUnknown (reqModel rq)) NoDelta (Some (js ''stop'')) None),
              Raw (js ''data: [DONE]'' @ [10, 10])],
           ended := True\<rparr>
      else
        res\<lparr>statusCode := orElse (errStatus err) 500,
            headersSent := True,
            jsonBody := Some (CompletionBody (fst (envErrorMeta e)) (snd (envErrorMeta e))
                         (modelOrUnknown (reqModel rq)) (errorPrefix @ errMessage err)
                         None (js ''stop'') None),
            ended := True\<rparr>)"
  by (simp add: onError_def Let_def endStream_def writeStreamData_def resWrite_def resEnd_def
      resJson_def resStatus_def setStreamHeaders_def)


lemma chat_stream_failure:
  assumes "reqMessages rq = Some msgs" "envToken e = Inr (Some tok)" "reqStream rq"
    "\<not> includesStr (reqModel rq) (js ''-image'')"
    "envStream e (buildRequest e rq msgs tok) tok = (events, Inl err)"
  shows "chatCompletion e opts rq (res, logs) =
     onError e rq err
       ((setStreamHeaders res)
          \<lparr>headersSent := headersSent res
              \<or> streamChunks (fst (envMeta e)) (snd (envMeta e)) (reqModel rq) events \<noteq> [],
           written := written res
              @ streamChunks (fst (envMeta e)) (snd (envMeta e)) (reqModel rq) events\<rparr>,
        logs)"
  using assms
  by (simp add: chatCompletion_def streamChat_def Let_def fold_onStreamEvent setStreamHeaders_def)


lemmas handler_eval =
  chatCompletion_def streamChat_def buildRequest_def onError_def onStreamEvent_def eventDelta_def
  endStream_def writeStreamData_def resWrite_def resEnd_def resJson_def resStatus_def
  setStreamHeaders_def createStreamChunk_def scenarioEnv_def scenarioRequest_def textEvent_def
  toolCallsEvent_def freshResponse_def orElse_def modelOrUnknown_def errorPrefix_def
  successLog_def Let_def



lemma setStreamHeaders_sel:
  "headersSent (setStreamHeaders res) = headersSent res"
  "written (setStreamHeaders res) = written res"
  "ended (setStreamHeaders res) = ended res"
  "statusCode (setStreamHeaders res) = statusCode res"
  "jsonBody (setStreamHeaders res) = jsonBody res"
  by (simp_all add: setStreamHeaders_def)

lemma stream_success:
  assumes "reqMessages rq = Some msgs" "envToken e = Inr (Some tok)" "reqStream rq"
    "\<not> includesStr (reqModel rq) (js ''-image'')"
    "envStream e (buildRequest e rq msgs tok) tok = (events, Inr usage)"
  shows "fst (chatCompletion e opts rq (res, logs)) =
     (setStreamHeaders res)
       \<lparr>headersSent := True,
        written := written res
          @ streamChunks (fst (envMeta e)) (snd (envMeta e)) (reqModel rq) events
          @ [Data (createStreamChunk (fst (envMeta e)) (snd (envMeta e)) (reqModel rq) NoDelta
                    (Some (if \<exists>ev \<in> set events. evType ev = js ''tool_calls''
                           then js ''tool_calls'' else js ''stop'')) usage),
             Raw (js ''data: [DONE]'' @ [10, 10])],
        ended := True\<rparr>"
  using assms
  by (simp add: chatCompletion_def streamChat_def Let_def fold_onStreamEvent setStreamHeaders_def
      endStream_def writeStreamData_def resWrite_def resEnd_def)

lemma image_success:
  assumes "reqMessages rq = Some msgs" "envToken e = Inr (Some tok)" "reqStream rq"
    "includesStr (reqModel rq) (js ''-image'')"
    "envStream e (buildRequest e rq msgs tok) tok = (events, Inr usage)"
  shows "\<exists>extra. \<not> list_ex isToolCallChunk extra \<and>
     fst (chatCompletion e opts rq (res, logs)) =
     (setStreamHeaders res)
       \<lparr>headersSent := True,
        written := written res
          @ (imageChunks (fst (envMeta e)) (snd (envMeta e)) (reqModel rq) events @ extra)
          @ [Data (createStreamChunk (fst (envMeta e)) (snd (envMeta e)) (reqModel rq) NoDelta
                    (Some (js ''stop'')) usage),
             Raw (js ''data: [DONE]'' @ [10, 10])],
        ended := True\<rparr>"
proof -
  obtain urls where f: "fold (onImageEvent (fst (envMeta e)) (snd (envMeta e)) (reqModel rq)) events
        ([], setStreamHeaders res) =
     (urls,
      (setStreamHeaders res)\<lparr>headersSent := headersSent (setStreamHeaders res)
            \<or> imageChunks (fst (envMeta e)) (snd (envMeta e)) (reqModel rq) events \<noteq> [],
          written := written (setStreamHeaders res)
            @ imageChunks (fst (envMeta e)) (snd (envMeta e)) (reqModel rq) events\<rparr>)"
    using fold_onImageEvent by blast
  let ?extra = "if urls \<noteq> []
     then [Data (createStreamChunk (fst (envMeta e)) (snd (envMeta e)) (reqModel rq)
                  (ContentDelta (imageMarkdown urls)) None None)]
     else []"
  have "\<not> list_ex isToolCallChunk ?extra"
    by (simp add: createStreamChunk_def)
  moreover have "fst (chatCompletion e opts rq (res, logs)) =
     (setStreamHeaders res)
       \<lparr>headersSent := True,
        written := written res
          @ (imageChunks (fst (envMeta e)) (snd (envMeta e)) (reqModel rq) events @ ?extra)
          @ [Data (createStreamChunk (fst (envMeta e)) (snd (envMeta e)) (reqModel rq) NoDelta
                    (Some (js ''stop'')) usage),
             Raw (js ''data: [DONE]'' @ [10, 10])],
        ended := True\<rparr>"
    using assms
    by (simp add: chatCompletion_def streamChat_def Let_def f setStreamHeaders_sel
        endStream_def writeStreamData_def resWrite_def resEnd_def)
  ultimately show ?thesis
    by blast
qed

lemma image_failure:
  assumes "reqMessages rq = Some msgs" "envToken e = Inr (Some tok)" "reqStream rq"
    "includesStr (reqModel rq) (js ''-image'')"
    "envStream e (buildRequest e rq msgs tok) tok = (events, Inl err)"
  shows "chatCompletion e opts rq (res, logs) =
     onError e rq err
       ((setStreamHeaders res)
          \<lparr>headersSent := headersSent res
              \<or> imageChunks (fst (envMeta e)) (snd (envMeta e)) (reqModel rq) events \<noteq> [],
           written := written res
              @ imageChunks (fst (envMeta e)) (snd (envMeta e)) (reqModel rq) events\<rparr>,
        logs)"
proof -
  obtain urls where f: "fold (onImageEvent (fst (envMeta e)) (snd (envMeta e)) (reqModel rq)) events
        ([], setStreamHeaders res) =
     (urls,
      (setStreamHeaders res)\<lparr>headersSent := headersSent (setStreamHeaders res)
            \<or> imageChunks (fst (envMeta e)) (snd (envMeta e)) (reqModel rq) events \<noteq> [],
          written := written (setStreamHeaders res)
            @ imageChunks (fst (envMeta e)) (snd (envMeta e)) (reqModel rq) events\<rparr>)"
    using fold_onImageEvent by blast
  show ?thesis
    using assms
    by (simp add: chatCompletion_def streamChat_def Let_def f setStreamHeaders_sel)
qed

text \<open>The writes of the two callbacks are chunks, and chunks alone are no termination.\<close>

lemma terminatedBySpec_append:
  "terminatedBySpec (ws @ [Data fin, Raw l]) \<longleftrightarrow>
     l = js ''data: [DONE]'' @ [10, 10] \<and> chunkDelta fin = NoDelta
     \<and> finish_reason fin = Some (if list_ex isToolCallChunk ws then js ''tool_calls'' else js ''stop'')"
  by (simp add: terminatedBySpec_def list_ex_iff)

lemma streamChunks_data: "x \<in> set (streamChunks ident created mdl events) \<Longrightarrow> \<exists>d. x = Data d"
  by (auto simp: streamChunks_def split: if_splits)

lemma imageChunks_data: "x \<in> set (imageChunks ident created mdl events) \<Longrightarrow> \<exists>d. x = Data d"
  by (auto simp: imageChunks_def split: if_splits)

lemma chunks_not_terminated:
  assumes "\<And>x. x \<in> set ws \<Longrightarrow> \<exists>d. x = Data d"
  shows "\<not> terminatedBySpec ws"
proof (cases "rev ws")
  case Nil
  then show ?thesis
    by (simp add: terminatedBySpec_def)
next
  case (Cons x xs)
  then have "x \<in> set ws"
    by (metis list.set_intros(1) set_rev)
  with assms obtain d where "x = Data d"
    by blast
  with Cons show ?thesis
    by (simp add: terminatedBySpec_def)
qed

lemma stream_returns:
  assumes "reqMessages rq = Some msgs" "envToken e = Inr (Some tok)" "reqStream rq"
    "envStream e (buildRequest e rq msgs tok) tok = (events, Inr usage)"
    "out = fst (chatCompletion e opts rq (freshResponse, logs))"
  shows "ended out" and "terminatedBySpec (written out)"
    and "list_ex isToolCallChunk (written out) \<longleftrightarrow>
           \<not> includesStr (reqModel rq) (js ''-image'')
           \<and> (\<exists>ev \<in> set events. evType ev = js ''tool_calls'')"
    and "\<not> includesStr (reqModel rq) (js ''-image'') \<Longrightarrow>
           take (length (written out) - 2) (written out)
             = streamChunks (fst (envMeta e)) (snd (envMeta e)) (reqModel rq) events"
proof -
  let ?done = "Raw (js ''data: [DONE]'' @ [10, 10])"
  have "\<exists>ws reason. written out
          = ws @ [Data (createStreamChunk (fst (envMeta e)) (snd (envMeta e)) (reqModel rq) NoDelta
                          (Some reason) usage), ?done]
        \<and> ended out
        \<and> reason = (if list_ex isToolCallChunk ws then js ''tool_calls'' else js ''stop'')
        \<and> (list_ex isToolCallChunk ws \<longleftrightarrow>
             \<not> includesStr (reqModel rq) (js ''-image'')
             \<and> (\<exists>ev \<in> set events. evType ev = js ''tool_calls''))
        \<and> (\<not> includesStr (reqModel rq) (js ''-image'') \<longrightarrow>
             ws = streamChunks (fst (envMeta e)) (snd (envMeta e)) (reqModel rq) events)"
  proof (cases "includesStr (reqModel rq) (js ''-image'')")
    case False
    from stream_success[OF assms(1,2,3) False assms(4), of opts freshResponse logs]
    have "written out = streamChunks (fst (envMeta e)) (snd (envMeta e)) (reqModel rq) events
          @ [Data (createStreamChunk (fst (envMeta e)) (snd (envMeta e)) (reqModel rq) NoDelta
                    (Some (if \<exists>ev \<in> set events. evType ev = js ''tool_calls''
                           then js ''tool_calls'' else js ''stop'')) usage), ?done]"
      and "ended out"
      using assms(5) by (simp_all add: freshResponse_def)
    with False show ?thesis
      using streamChunks_toolcall[of "fst (envMeta e)" "snd (envMeta e)" "reqModel rq" events]
      by (intro exI conjI) auto
  next
    case True
    from image_success[OF assms(1,2,3) True assms(4), of opts freshResponse logs]
    obtain extra where ex: "\<not> list_ex isToolCallChunk extra"
      and w: "written out = (imageChunks (fst (envMeta e)) (snd (envMeta e)) (reqModel rq) events @ extra)
          @ [Data (createStreamChunk (fst (envMeta e)) (snd (envMeta e)) (reqModel rq) NoDelta
                    (Some (js ''stop'')) usage), ?done]"
      and en: "ended out"
      using assms(5) by (auto simp: freshResponse_def)
    have nt: "\<not> list_ex isToolCallChunk
        (imageChunks (fst (envMeta e)) (snd (envMeta e)) (reqModel rq) events @ extra)"
      using ex imageChunks_no_toolcall by simp
    from w en nt True show ?thesis
      by (intro exI conjI) auto
  qed
  then obtain ws reason where w: "written out
          = ws @ [Data (createStreamChunk (fst (envMeta e)) (snd (envMeta e)) (reqModel rq) NoDelta
                          (Some reason) usage), ?done]"
    and en: "ended out"
    and r: "reason = (if list_ex isToolCallChunk ws then js ''tool_calls'' else js ''stop'')"
    and tc: "list_ex isToolCallChunk ws \<longleftrightarrow>
             \<not> includesStr (reqModel rq) (js ''-image'')
             \<and> (\<exists>ev \<in> set events. evType ev = js ''tool_calls'')"
    and ni: "\<not> includesStr (reqModel rq) (js ''-image'') \<longrightarrow>
             ws = streamChunks (fst (envMeta e)) (snd (envMeta e)) (reqModel rq) events"
    by blast
  show "ended out"
    by (rule en)
  show "terminatedBySpec (written out)"
    unfolding w terminatedBySpec_append using r by (simp add: createStreamChunk_def)
  show "list_ex isToolCallChunk (written out) \<longleftrightarrow>
           \<not> includesStr (reqModel rq) (js ''-image'')
           \<and> (\<exists>ev \<in> set events. evType ev = js ''tool_calls'')"
    unfolding w using tc by (simp add: createStreamChunk_def)
  show "take (length (written out) - 2) (written out)
             = streamChunks (fst (envMeta e)) (snd (envMeta e)) (reqModel rq) events"
    if "\<not> includesStr (reqModel rq) (js ''-image'')"
    unfolding w using ni that by simp
qed

text \<open>A failure reaches the \<open>catch\<close> block with the chunks of the events delivered so far.\<close>

lemma stream_fails:
  assumes "reqMessages rq = Some msgs" "envToken e = Inr (Some tok)" "reqStream rq"
    "envStream e (buildRequest e rq msgs tok) tok = (events, Inl err)"
    "chunks = (if includesStr (reqModel rq) (js ''-image'')
               then imageChunks (fst (envMeta e)) (snd (envMeta e)) (reqModel rq) events
               else streamChunks (fst (envMeta e)) (snd (envMeta e)) (reqModel rq) events)"
  shows "chatCompletion e opts rq (freshResponse, logs) =
     onError e rq err
       ((setStreamHeaders freshResponse)\<lparr>headersSent := chunks \<noteq> [], written := chunks\<rparr>, logs)"
proof (cases "includesStr (reqModel rq) (js ''-image'')")
  case True
  from image_failure[OF assms(1,2,3) True assms(4), of opts freshResponse logs] assms(5) True
  show ?thesis
    by (simp add: freshResponse_def)
next
  case False
  from chat_stream_failure[OF assms(1,2,3) False assms(4), of opts freshResponse logs] assms(5) False
  show ?thesis
    by (simp add: freshResponse_def)
qed

lemma error_termination:
  assumes "reqStream rq" "\<not> headersSent res" "written res = []"
    and "out = fst (onError e rq err (res, logs))"
  shows "ended out" and "terminatedBySpec (written out)" and "length (written out) = 3"
    and "\<exists>c. hd (written out) = Data c
           \<and> chunkDelta c = ContentDelta (errorPrefix @ errMessage err) \<and> finish_reason c = None"
    and "\<not> list_ex isToolCallChunk (written out)"
proof -
  let ?c = "createStreamChunk (fst (envErrorMeta e)) (snd (envErrorMeta e))
              (modelOrUnknown (reqModel rq)) (ContentDelta (errorPrefix @ errMessage err)) None None"
  let ?fin = "createStreamChunk (fst (envErrorMeta e)) (snd (envErrorMeta e))
              (modelOrUnknown (reqModel rq)) NoDelta (Some (js ''stop'')) None"
  have w: "written out = [Data ?c] @ [Data ?fin, Raw (js ''data: [DONE]'' @ [10, 10])]"
    and en: "ended out"
    using assms by (simp_all add: onError_cases)
  show "ended out"
    by (rule en)
  show "terminatedBySpec (written out)"
    unfolding w terminatedBySpec_append by (simp add: createStreamChunk_def)
  show "length (written out) = 3"
    unfolding w by simp
  show "\<exists>c. hd (written out) = Data c
           \<and> chunkDelta c = ContentDelta (errorPrefix @ errMessage err) \<and> finish_reason c = None"
    unfolding w by (simp add: createStreamChunk_def)
  show "\<not> list_ex isToolCallChunk (written out)"
    unfolding w by (simp add: createStreamChunk_def)
qed

lemma token_failure:
  assumes "reqMessages rq = Some msgs" "envToken e = Inl err"
  shows "chatCompletion e opts rq st = onError e rq err st"
  using assms by (simp add: chatCompletion_def)

text \<open>
  Claim C9, as the code has it. A streaming chat response is terminated as the specification says, by
  a chunk with an empty delta, whose \<open>finish_reason\<close> is \<open>tool_calls\<close> when a chunk with tool
  calls was written before it and \<open>stop\<close> otherwise, followed by the line \<open>data: [DONE]\<close>,
  when the upstream call returns, and when it fails, or no credential can be resolved, before
  anything was written: the termination then follows one content chunk with the prefixed
  message. A chunk with tool calls is written exactly for a \<open>tool_calls\<close> event of a model
  that is not an image model. When the upstream call fails behind a first chunk, nothing more
  is written and the response is not ended: it has no termination.
\<close>

theorem stream_termination:
  assumes "reqStream rq" and "reqMessages rq = Some msgs"
    and "out = fst (chatCompletion e opts rq (freshResponse, logs))"
    and "chunks = (if includesStr (reqModel rq) (js ''-image'')
                   then imageChunks (fst (envMeta e)) (snd (envMeta e)) (reqModel rq) events
                   else streamChunks (fst (envMeta e)) (snd (envMeta e)) (reqModel rq) events)"
  shows
    "(envToken e = Inr (Some tok)
        \<and> envStream e (buildRequest e rq msgs tok) tok = (events, Inr usage) \<longrightarrow>
        ended out \<and> terminatedBySpec (written out)
        \<and> (list_ex isToolCallChunk (written out) \<longleftrightarrow>
             \<not> includesStr (reqModel rq) (js ''-image'')
             \<and> (\<exists>ev \<in> set events. evType ev = js ''tool_calls''))
        \<and> (\<not> includesStr (reqModel rq) (js ''-image'') \<longrightarrow>
             take (length (written out) - 2) (written out) = chunks))
     \<and> (envToken e = Inr (Some tok)
        \<and> envStream e (buildRequest e rq msgs tok) tok = (events, Inl err) \<and> chunks = [] \<longrightarrow>
        ended out \<and> terminatedBySpec (written out) \<and> length (written out) = 3
        \<and> (\<exists>c. hd (written out) = Data c
              \<and> chunkDelta c = ContentDelta (errorPrefix @ errMessage err)
              \<and> finish_reason c = None)
        \<and> \<not> list_ex isToolCallChunk (written out))
     \<and> (envToken e = Inr (Some tok)
        \<and> envStream e (buildRequest e rq msgs tok) tok = (events, Inl err) \<and> chunks \<noteq> [] \<longrightarrow>
        \<not> ended out \<and> written out = chunks \<and> \<not> terminatedBySpec (written out))
     \<and> (envToken e = Inl err \<longrightarrow>
        ended out \<and> terminatedBySpec (written out) \<and> length (written out) = 3
        \<and> (\<exists>c. hd (written out) = Data c
              \<and> chunkDelta c = ContentDelta (errorPrefix @ errMessage err)
              \<and> finish_reason c = None)
        \<and> \<not> list_ex isToolCallChunk (written out))"
proof (intro conjI impI; (elim conjE)?)
  assume t: "envToken e = Inr (Some tok)"
    and s: "envStream e (buildRequest e rq msgs tok) tok = (events, Inr usage)"
  note r = stream_returns[OF assms(2) t assms(1) s assms(3)]
  show "ended out"
    by (rule r(1))
  show "terminatedBySpec (written out)"
    by (rule r(2))
  show "list_ex isToolCallChunk (written out) \<longleftrightarrow>
             \<not> includesStr (reqModel rq) (js ''-image'')
             \<and> (\<exists>ev \<in> set events. evType ev = js ''tool_calls'')"
    by (rule r(3))
  show "take (length (written out) - 2) (written out) = chunks"
    if "\<not> includesStr (reqModel rq) (js ''-image'')"
    using r(4)[OF that] assms(4) that by simp
next
  assume t: "envToken e = Inr (Some tok)"
    and s: "envStream e (buildRequest e rq msgs tok) tok = (events, Inl err)"
    and c: "chunks = []"
  have o: "out = fst (onError e rq err
       ((setStreamHeaders freshResponse)\<lparr>headersSent := False, written := []\<rparr>, logs))"
    using stream_fails[OF assms(2) t assms(1) s assms(4), of opts logs] assms(3) c by simp
  note r = error_termination[OF assms(1) _ _ o]
  show "ended out"
    by (rule r(1)) simp_all
  show "terminatedBySpec (written out)"
    by (rule r(2)) simp_all
  show "length (written out) = 3"
    by (rule r(3)) simp_all
  show "\<exists>c. hd (written out) = Data c
              \<and> chunkDelta c = ContentDelta (errorPrefix @ errMessage err)
              \<and> finish_reason c = None"
    by (rule r(4)) simp_all
  show "\<not> list_ex isToolCallChunk (written out)"
    by (rule r(5)) simp_all
next
  assume t: "envToken e = Inr (Some tok)"
    and s: "envStream e (buildRequest e rq msgs tok) tok = (events, Inl err)"
    and c: "chunks \<noteq> []"
  have o: "out = (setStreamHeaders freshResponse)\<lparr>headersSent := True, written := chunks\<rparr>"
    using stream_fails[OF assms(2) t assms(1) s assms(4), of opts logs] assms(3) c
    by (simp add: onError_cases)
  show "\<not> ended out"
    unfolding o by (simp add: setStreamHeaders_def freshResponse_def)
  show "written out = chunks"
    unfolding o by simp
  have "\<And>x. x \<in> set chunks \<Longrightarrow> \<exists>d. x = Data d"
    unfolding assms(4) using streamChunks_data imageChunks_data by (auto split: if_splits)
  then show "\<not> terminatedBySpec (written out)"
    unfolding o by (simp add: chunks_not_terminated)
next
  assume t: "envToken e = Inl err"
  have o: "out = fst (onError e rq err (freshResponse, logs))"
    using token_failure[OF assms(2) t] assms(3) by simp
  note r = error_termination[OF assms(1) _ _ o]
  show "ended out"
    by (rule r(1)) (simp_all add: freshResponse_def)
  show "terminatedBySpec (written out)"
    by (rule r(2)) (simp_all add: freshResponse_def)
  show "length (written out) = 3"
    by (rule r(3)) (simp_all add: freshResponse_def)
  show "\<exists>c. hd (written out) = Data c
              \<and> chunkDelta c = ContentDelta (errorPrefix @ errMessage err)
              \<and> finish_reason c = None"
    by (rule r(4)) (simp_all add: freshResponse_def)
  show "\<not> list_ex isToolCallChunk (written out)"
    by (rule r(5)) (simp_all add: freshResponse_def)
qed

theorem stream_termination_witness:
  "ended (fst (chatCompletion
         (scenarioEnv [toolCallsEvent [\<lparr>callId = js ''c1'', callType = js ''function'',
                          functionName = js ''f'', functionArguments = ArgString (js ''{}'')\<rparr>]]
            (Inr None) (Inr ([], [], None)))
         \<lparr>tokenMissingError = None, tokenMissingStatus = None\<rparr>
         (scenarioRequest (js ''gemini-2.5-flash'') True) (freshResponse, [])))
   \<and> terminatedBySpec (written (fst (chatCompletion
         (scenarioEnv [toolCallsEvent [\<lparr>callId = js ''c1'', callType = js ''function'',
                          functionName = js ''f'', functionArguments = ArgString (js ''{}'')\<rparr>]]
            (Inr None) (Inr ([], [], None)))
         \<lparr>tokenMissingError = None, tokenMissingStatus = None\<rparr>
         (scenarioRequest (js ''gemini-2.5-flash'') True) (freshResponse, []))))
   \<and> written (fst (chatCompletion
         (scenarioEnv [toolCallsEvent [\<lparr>callId = js ''c1'', callType = js ''function'',
                          functionName = js ''f'', functionArguments = ArgString (js ''{}'')\<rparr>]]
            (Inr None) (Inr ([], [], None)))
         \<lparr>tokenMissingError = None, tokenMissingStatus = None\<rparr>
         (scenarioRequest (js ''gemini-2.5-flash'') True) (freshResponse, [])))
     = [Data \<lparr>chunkId = js ''chatcmpl-1'', chunkCreated = 1, chunkModel = js ''gemini-2.5-flash'',
              chunkDelta = ToolCallsDelta [(0, \<lparr>callId = js ''c1'', callType = js ''function'',
                          functionName = js ''f'', functionArguments = ArgString (js ''{}'')\<rparr>)],
              finish_reason = None, chunkUsage = None\<rparr>,
        Data \<lparr>chunkId = js ''chatcmpl-1'', chunkCreated = 1, chunkModel = js ''gemini-2.5-flash'',
              chunkDelta = NoDelta, finish_reason = Some (js ''tool_calls''), chunkUsage = None\<rparr>,
        Raw (js ''data: [DONE]'' @ [10, 10])]
   \<and> terminatedBySpec (written (fst (chatCompletion
         (scenarioEnv [] (Inl \<lparr>errMessage = js ''quota'', errStatus = Some 429\<rparr>)
            (Inr ([], [], None)))
         \<lparr>tokenMissingError = None, tokenMissingStatus = None\<rparr>
         (scenarioRequest (js ''gemini-2.5-flash'') True) (freshResponse, []))))
   \<and> written (fst (chatCompletion
         (scenarioEnv [] (Inl \<lparr>errMessage = js ''quota'', errStatus = Some 429\<rparr>)
            (Inr ([], [], None)))
         \<lparr>tokenMissingError = None, tokenMissingStatus = None\<rparr>
         (scenarioRequest (js ''gemini-2.5-flash'') True) (freshResponse, [])))
     = [Data \<lparr>chunkId = js ''chatcmpl-2'', chunkCreated = 2, chunkModel = js ''gemini-2.5-flash'',
              chunkDelta = ContentDelta ([38169, 35823, 58, 32] @ js ''quota''),
              finish_reason = None, chunkUsage = None\<rparr>,
        Data \<lparr>chunkId = js ''chatcmpl-2'', chunkCreated = 2, chunkModel = js ''gemini-2.5-flash'',
              chunkDelta = NoDelta, finish_reason = Some (js ''stop''), chunkUsage = None\<rparr>,
        Raw (js ''data: [DONE]'' @ [10, 10])]"
proof -
  let ?call = "\<lparr>callId = js ''c1'', callType = js ''function'',
                 functionName = js ''f'', functionArguments = ArgString (js ''{}'')\<rparr>"
  let ?e = "scenarioEnv [toolCallsEvent [?call]] (Inr None) (Inr ([], [], None))"
  let ?f = "scenarioEnv [] (Inl \<lparr>errMessage = js ''quota'', errStatus = Some 429\<rparr>)
              (Inr ([], [], None))"
  let ?opts = "\<lparr>tokenMissingError = None, tokenMissingStatus = None\<rparr>"
  let ?rq = "scenarioRequest (js ''gemini-2.5-flash'') True"
  let ?msgs = "[\<lparr>role = js ''user'', content = ContentString (js ''ping''),
                           tool_calls = [], tool_call_id = []\<rparr>]"
  let ?tok = "\<lparr>projectId = js ''p1'', sessionId = js ''s1''\<rparr>"
  have h1: "reqStream ?rq" and h2: "reqMessages ?rq = Some ?msgs"
    by (simp_all add: scenarioRequest_def)
  have ni: "\<not> includesStr (js ''gemini-2.5-flash'') (js ''-image'')"
    by (simp add: startsWith_def js_def)
  have ne: "js ''gemini-2.5-flash'' \<noteq> []"
    by (simp add: js_def)
  note ret = stream_termination[OF h1 h2 refl refl, where e="?e" and tok="?tok"
      and events="[toolCallsEvent [?call]]" and usage=None and opts="?opts" and logs="[]",
      THEN conjunct1, rule_format]
  have p: "envToken ?e = Inr (Some ?tok)
        \<and> envStream ?e (buildRequest ?e ?rq ?msgs ?tok) ?tok = ([toolCallsEvent [?call]], Inr None)"
    by (simp add: scenarioEnv_def)
  have a: "ended (fst (chatCompletion ?e ?opts ?rq (freshResponse, [])))"
    using ret[OF p] by (rule conjunct1)
  have b: "terminatedBySpec (written (fst (chatCompletion ?e ?opts ?rq (freshResponse, []))))"
    using ret[OF p] by (elim conjE)
  have c: "written (fst (chatCompletion ?e ?opts ?rq (freshResponse, [])))
     = [Data \<lparr>chunkId = js ''chatcmpl-1'', chunkCreated = 1, chunkModel = js ''gemini-2.5-flash'',
              chunkDelta = ToolCallsDelta [(0, ?call)],
              finish_reason = None, chunkUsage = None\<rparr>,
        Data \<lparr>chunkId = js ''chatcmpl-1'', chunkCreated = 1, chunkModel = js ''gemini-2.5-flash'',
              chunkDelta = NoDelta, finish_reason = Some (js ''tool_calls''), chunkUsage = None\<rparr>,
        Raw (js ''data: [DONE]'' @ [10, 10])]"
    using ni by (simp add: handler_eval)
  note fl = stream_termination[OF h1 h2 refl refl, where e="?f" and tok="?tok"
      and events="[]" and err="\<lparr>errMessage = js ''quota'', errStatus = Some 429\<rparr>"
      and opts="?opts" and logs="[]",
      THEN conjunct2, THEN conjunct1, rule_format]
  have q: "envToken ?f = Inr (Some ?tok)
        \<and> envStream ?f (buildRequest ?f ?rq ?msgs ?tok) ?tok
            = ([], Inl \<lparr>errMessage = js ''quota'', errStatus = Some 429\<rparr>)
        \<and> (if includesStr (reqModel ?rq) (js ''-image'')
            then imageChunks (fst (envMeta ?f)) (snd (envMeta ?f)) (reqModel ?rq) []
            else streamChunks (fst (envMeta ?f)) (snd (envMeta ?f)) (reqModel ?rq) []) = []"
    by (simp add: scenarioEnv_def streamChunks_def imageChunks_def)
  have d: "terminatedBySpec (written (fst (chatCompletion ?f ?opts ?rq (freshResponse, []))))"
    using fl[OF q] by (elim conjE)
  have e: "written (fst (chatCompletion ?f ?opts ?rq (freshResponse, [])))
     = [Data \<lparr>chunkId = js ''chatcmpl-2'', chunkCreated = 2, chunkModel = js ''gemini-2.5-flash'',
              chunkDelta = ContentDelta ([38169, 35823, 58, 32] @ js ''quota''),
              finish_reason = None, chunkUsage = None\<rparr>,
        Data \<lparr>chunkId = js ''chatcmpl-2'', chunkCreated = 2, chunkModel = js ''gemini-2.5-flash'',
              chunkDelta = NoDelta, finish_reason = Some (js ''stop''), chunkUsage = None\<rparr>,
        Raw (js ''data: [DONE]'' @ [10, 10])]"
    using ni ne by (simp add: handler_eval)
  from a b c d e show ?thesis
    by (intro conjI)
qed

text \<open>
  A stream whose upstream call fails behind a chunk with tool calls: the chunk is all that is
  written; no chunk with a \<open>finish_reason\<close> and no \<open>data: [DONE]\<close> line follow, and the
  response is not ended.
\<close>

theorem stream_failure_unterminated:
  "written (fst (chatCompletion
         (scenarioEnv [toolCallsEvent [\<lparr>callId = js ''c1'', callType = js ''function'',
                          functionName = js ''f'', functionArguments = ArgString (js ''{}'')\<rparr>]]
            (Inl \<lparr>errMessage = js ''quota'', errStatus = Some 429\<rparr>) (Inr ([], [], None)))
         \<lparr>tokenMissingError = None, tokenMissingStatus = None\<rparr>
         (scenarioRequest (js ''gemini-2.5-flash'') True) (freshResponse, [])))
     = [Data \<lparr>chunkId = js ''chatcmpl-1'', chunkCreated = 1, chunkModel = js ''gemini-2.5-flash'',
              chunkDelta = ToolCallsDelta [(0, \<lparr>callId = js ''c1'', callType = js ''function'',
                          functionName = js ''f'', functionArguments = ArgString (js ''{}'')\<rparr>)],
              finish_reason = None, chunkUsage = None\<rparr>]
   \<and> \<not> ended (fst (chatCompletion
         (scenarioEnv [toolCallsEvent [\<lparr>callId = js ''c1'', callType = js ''function'',
                          functionName = js ''f'', functionArguments = ArgString (js ''{}'')\<rparr>]]
            (Inl \<lparr>errMessage = js ''quota'', errStatus = Some 429\<rparr>) (Inr ([], [], None)))
         \<lparr>tokenMissingError = None, tokenMissingStatus = None\<rparr>
         (scenarioRequest (js ''gemini-2.5-flash'') True) (freshResponse, [])))
   \<and> \<not> terminatedBySpec (written (fst (chatCompletion
         (scenarioEnv [toolCallsEvent [\<lparr>callId = js ''c1'', callType = js ''function'',
                          functionName = js ''f'', functionArguments = ArgString (js ''{}'')\<rparr>]]
            (Inl \<lparr>errMessage = js ''quota'', errStatus = Some 429\<rparr>) (Inr ([], [], None)))
         \<lparr>tokenMissingError = None, tokenMissingStatus = None\<rparr>
         (scenarioRequest (js ''gemini-2.5-flash'') True) (freshResponse, []))))"
proof -
  have ni: "\<not> includesStr (js ''gemini-2.5-flash'') (js ''-image'')"
    by (simp add: startsWith_def js_def)
  have ne: "js ''gemini-2.5-flash'' \<noteq> []"
    by (simp add: js_def)
  show ?thesis
    using ni ne by (simp add: handler_eval terminatedBySpec_def)
qed

section \<open>Properties of the credential import\<close>











































end
